theory Spec2Isabelle
  imports Complex_Main
begin

section \<open>Data model of the recording engine (recorder.js)\<close>

text \<open>
  A Blob is a byte sequence with a MIME type; its \<open>size\<close> property is the number of
  bytes. \<open>new Blob(parts, {type})\<close> concatenates the parts in order.
\<close>

record blob =
  bytes :: "nat list"
  btype :: string

definition blob_size :: "blob \<Rightarrow> nat" where
  "blob_size b = length (bytes b)"

definition new_Blob :: "blob list \<Rightarrow> string \<Rightarrow> blob" where
  "new_Blob parts ty = \<lparr>bytes = concat (map bytes parts), btype = ty\<rparr>"

text \<open>A JavaScript \<open>Error\<close> object, identified by its message.\<close>

datatype js_error = Error (message: string)

text \<open>The values passed to listeners: a chunk for \<open>dataavailable\<close>, an Error for \<open>error\<close>.\<close>

datatype payload = BlobData blob | ErrorData js_error

text \<open>
  A media track is an object with an identity and a kind; a MediaStream is the list of
  its tracks, in \<open>getTracks()\<close> order.
\<close>

datatype track_kind = Video | Audio

record track =
  track_id :: nat
  kind :: track_kind

type_synonym stream = "track list"

definition getVideoTracks :: "stream \<Rightarrow> track list" where
  "getVideoTracks s = filter (\<lambda>t. kind t = Video) s"

definition getAudioTracks :: "stream \<Rightarrow> track list" where
  "getAudioTracks s = filter (\<lambda>t. kind t = Audio) s"

text \<open>The host's MediaRecorder object: its \<open>state\<close> attribute and construction options.\<close>

datatype recording_state = Inactive | Recording | Paused

record MediaRecorder =
  state :: recording_state
  mimeType :: string
  mr_stream :: stream
  videoBitsPerSecond :: nat
  audioBitsPerSecond :: nat

text \<open>
  The page as the listeners see it: \<open>user\<close> is whatever state the registered callbacks
  own, \<open>console\<close> the lines written by \<open>console.error\<close>. A callback receives the payload,
  may change the user state, and either returns or throws.
\<close>

record 'u page =
  user :: 'u
  console :: "string list"

type_synonym 'u callback = "payload \<Rightarrow> 'u \<Rightarrow> 'u \<times> js_error option"

record streams_slots =
  screen :: "stream option"
  webcam :: "stream option"
  combined :: "stream option"

record capabilities_rec =
  webCodecs :: bool
  offscreenCanvas :: bool

text \<open>
  The fields of class \<open>Recorder\<close>. A null field is \<open>None\<close>. The worker and the audio
  context are host objects known by an identity; the canvas by its width and height.
\<close>

record 'u Recorder =
  mediaRecorder :: "MediaRecorder option"
  chunks :: "blob list"
  streams :: streams_slots
  capabilities :: capabilities_rec
  eventListeners :: "string \<rightharpoonup> 'u callback list"
  worker :: "nat option"
  canvas :: "(nat \<times> nat) option"
  canvasStream :: "stream option"
  audioContext :: "nat option"
  isRecording :: bool
  maxChunks :: nat

definition null_streams :: streams_slots where
  "null_streams = \<lparr>screen = None, webcam = None, combined = None\<rparr>"

definition constructor :: "'u Recorder" where
  "constructor =
     \<lparr>mediaRecorder = None, chunks = [], streams = null_streams,
      capabilities = \<lparr>webCodecs = False, offscreenCanvas = False\<rparr>,
      eventListeners = Map.empty, worker = None, canvas = None, canvasStream = None,
      audioContext = None, isRecording = False, maxChunks = 1000\<rparr>"

section \<open>Event registry: on and emit\<close>

text \<open>\<open>on(event, callback)\<close>: create the listener array on first use, then push.\<close>

definition on :: "'u Recorder \<Rightarrow> string \<Rightarrow> 'u callback \<Rightarrow> 'u Recorder" where
  "on r event cb =
     (let r1 = (if eventListeners r event = None
                then r\<lparr>eventListeners := (eventListeners r)(event \<mapsto> [])\<rparr> else r)
      in case eventListeners r1 event of
           None \<Rightarrow> r1
         | Some ls \<Rightarrow> r1\<lparr>eventListeners := (eventListeners r1)(event \<mapsto> ls @ [cb])\<rparr>)"

text \<open>
  Statements that may throw are state transformers returning the new state and the
  exception thrown, if any. \<open>forEach\<close> stops at the first exception its body lets
  through, as \<open>Array.prototype.forEach\<close> does; \<open>try_catch\<close> runs the handler on the
  state the body left behind.
\<close>

fun forEach :: "('a \<Rightarrow> 's \<Rightarrow> 's \<times> js_error option) \<Rightarrow> 'a list \<Rightarrow> 's \<Rightarrow> 's \<times> js_error option" where
  "forEach f [] s = (s, None)"
| "forEach f (x # xs) s =
     (case f x s of
        (s', Some e) \<Rightarrow> (s', Some e)
      | (s', None) \<Rightarrow> forEach f xs s')"

definition try_catch ::
  "('s \<Rightarrow> 's \<times> js_error option) \<Rightarrow> (js_error \<Rightarrow> 's \<Rightarrow> 's \<times> js_error option) \<Rightarrow> 's \<Rightarrow> 's \<times> js_error option" where
  "try_catch body handler s =
     (case body s of
        (s', Some e) \<Rightarrow> handler e s'
      | (s', None) \<Rightarrow> (s', None))"

definition call_listener :: "'u callback \<Rightarrow> payload \<Rightarrow> 'u page \<Rightarrow> 'u page \<times> js_error option" where
  "call_listener cb d p = (case cb d (user p) of (u', ex) \<Rightarrow> (p\<lparr>user := u'\<rparr>, ex))"

definition console_error :: "string \<Rightarrow> js_error \<Rightarrow> 'u page \<Rightarrow> 'u page \<times> js_error option" where
  "console_error msg e p = (p\<lparr>console := console p @ [msg @ '' '' @ message e]\<rparr>, None)"

text \<open>
  \<open>emit(event, data)\<close>: the second component of the result is the exception that
  leaves \<open>emit\<close>, if any.
\<close>

definition emit :: "'u Recorder \<Rightarrow> string \<Rightarrow> payload \<Rightarrow> 'u page \<Rightarrow> 'u page \<times> js_error option" where
  "emit r event d p =
     (case eventListeners r event of
        None \<Rightarrow> (p, None)
      | Some listeners \<Rightarrow>
          forEach (\<lambda>cb. try_catch (call_listener cb d)
                           (console_error (''Error in '' @ event @ '' listener:'')))
                  listeners p)"

section \<open>Chunk queue: the dataavailable handler\<close>

text \<open>\<open>Array.prototype.shift\<close> removes the first element; on an empty array it does nothing.\<close>

definition shift :: "'a list \<Rightarrow> 'a list" where
  "shift xs = drop 1 xs"

text \<open>
  The handler installed by \<open>setupRecorder\<close>. \<open>e.data\<close> may be absent (\<open>None\<close>). The
  handler's effect on the recorder and the page does not depend on whether \<open>emit\<close>
  returns normally, so only the page is kept from the result of \<open>emit\<close>.
\<close>

definition ondataavailable :: "'u Recorder \<Rightarrow> blob option \<Rightarrow> 'u page \<Rightarrow> 'u Recorder \<times> 'u page" where
  "ondataavailable r data p =
     (case data of
        None \<Rightarrow> (r, p)
      | Some b \<Rightarrow>
          if blob_size b > 0 then
            (let r1 = (if length (chunks r) \<ge> maxChunks r
                       then r\<lparr>chunks := shift (chunks r)\<rparr> else r);
                 r2 = r1\<lparr>chunks := chunks r1 @ [b]\<rparr>
             in (r2, fst (emit r2 ''dataavailable'' (BlobData b) p)))
          else (r, p))"

text \<open>A sequence of flush boundaries, each delivering its payload to the handler.\<close>

fun flushes :: "'u Recorder \<Rightarrow> 'u page \<Rightarrow> blob option list \<Rightarrow> 'u Recorder \<times> 'u page" where
  "flushes r p [] = (r, p)"
| "flushes r p (d # ds) = (case ondataavailable r d p of (r', p') \<Rightarrow> flushes r' p' ds)"

text \<open>The payloads that are present and non-empty, in arrival order.\<close>

definition nonempty_chunks :: "blob option list \<Rightarrow> blob list" where
  "nonempty_chunks ds = concat (map (\<lambda>d. case d of None \<Rightarrow> [] | Some b \<Rightarrow> if blob_size b > 0 then [b] else []) ds)"

definition listeners_of :: "'u Recorder \<Rightarrow> string \<Rightarrow> 'u callback list" where
  "listeners_of r event = (case eventListeners r event of None \<Rightarrow> [] | Some ls \<Rightarrow> ls)"

text \<open>The user state after every callback of a list has run once on \<open>d\<close>, in list order.\<close>

definition run_all :: "'u callback list \<Rightarrow> payload \<Rightarrow> 'u \<Rightarrow> 'u" where
  "run_all cbs d u = foldl (\<lambda>u cb. fst (cb d u)) u cbs"

definition has_payload :: "blob option \<Rightarrow> bool" where
  "has_payload data = (case data of None \<Rightarrow> False | Some b \<Rightarrow> blob_size b > 0)"

text \<open>The last \<open>n\<close> elements of a list, in order.\<close>

definition lastn :: "nat \<Rightarrow> 'a list \<Rightarrow> 'a list" where
  "lastn n xs = drop (length xs - n) xs"

section \<open>The host: tracks, workers, audio contexts, MediaRecorder\<close>

text \<open>
  The browser is not part of the repository. Its mutable state is what the recorder can
  observe or change: which tracks have ended, which workers were terminated, which audio
  contexts were closed. \<open>released\<close> logs every \<open>track.stop()\<close> that moved a track from
  live to ended. The remaining fields are the answers the browser gives during one
  \<open>start()\<close>: whether closing an audio context rejects, the result of each acquisition
  and constructor call (\<open>Inl\<close> is the exception thrown), whether both video elements
  ever report their metadata, the tracks of the mixing destination, and the events that
  reach the page while the accelerated compositor is being set up.
\<close>

text \<open>
  Those events: a message of type \<open>ready\<close> or \<open>error\<close> from the worker, any other
  message, or the readiness timer firing.
\<close>

datatype wc_event = MsgReady | MsgError string | MsgOther | TimerFired

record host =
  ended :: "nat list"
  released :: "nat list"
  terminated :: "nat list"
  closed_contexts :: "nat list"
  close_rejects :: "nat \<Rightarrow> bool"
  getDisplayMedia :: "js_error + stream"
  getUserMedia :: "js_error + stream"
  isTypeSupported :: "string \<Rightarrow> bool"
  new_Worker :: "js_error + nat"
  new_TrackProcessors :: "js_error option"
  generator_track :: track
  loadedmetadata :: bool
  captureStream :: "js_error + stream"
  new_AudioContext :: "js_error + nat"
  createDestination :: "js_error + track list"
  worker_events :: "wc_event list"

text \<open>\<open>MediaStreamTrack.stop()\<close>: ends a live track; on an ended track it does nothing.\<close>

definition track_stop :: "track \<Rightarrow> host \<Rightarrow> host" where
  "track_stop t h =
     (if track_id t \<in> set (ended h) then h
      else h\<lparr>ended := track_id t # ended h, released := released h @ [track_id t]\<rparr>)"

definition stop_tracks :: "stream \<Rightarrow> host \<Rightarrow> host" where
  "stop_tracks s h = foldl (\<lambda>h t. track_stop t h) h s"

text \<open>
  The MediaRecorder methods (W3C MediaStream Recording): \<open>start\<close>, \<open>pause\<close> and
  \<open>resume\<close> throw InvalidStateError in the states where they are not allowed;
  \<open>stop\<close> on an inactive recorder does nothing.
\<close>

definition mr_start :: "MediaRecorder \<Rightarrow> js_error + MediaRecorder" where
  "mr_start m = (if state m \<noteq> Inactive then Inl (Error ''InvalidStateError'')
                 else Inr (m\<lparr>state := Recording\<rparr>))"

definition mr_pause :: "MediaRecorder \<Rightarrow> js_error + MediaRecorder" where
  "mr_pause m = (case state m of
                   Inactive \<Rightarrow> Inl (Error ''InvalidStateError'')
                 | Paused \<Rightarrow> Inr m
                 | Recording \<Rightarrow> Inr (m\<lparr>state := Paused\<rparr>))"

definition mr_resume :: "MediaRecorder \<Rightarrow> js_error + MediaRecorder" where
  "mr_resume m = (case state m of
                    Inactive \<Rightarrow> Inl (Error ''InvalidStateError'')
                  | Recording \<Rightarrow> Inr m
                  | Paused \<Rightarrow> Inr (m\<lparr>state := Recording\<rparr>))"

definition mr_stop :: "MediaRecorder \<Rightarrow> MediaRecorder" where
  "mr_stop m = m\<lparr>state := Inactive\<rparr>"

section \<open>pause, resume, cleanup, stop\<close>

text \<open>A synchronous method returns the recorder it leaves behind, or the exception it throws.\<close>

definition pause :: "'u Recorder \<Rightarrow> js_error + 'u Recorder" where
  "pause r =
     (case mediaRecorder r of
        None \<Rightarrow> Inr r
      | Some m \<Rightarrow>
          if state m = Recording then
            (case mr_pause m of
               Inl e \<Rightarrow> Inl e
             | Inr m' \<Rightarrow> Inr (r\<lparr>mediaRecorder := Some m'\<rparr>))
          else Inr r)"

definition resume :: "'u Recorder \<Rightarrow> js_error + 'u Recorder" where
  "resume r =
     (case mediaRecorder r of
        None \<Rightarrow> Inr r
      | Some m \<Rightarrow>
          if state m = Paused then
            (case mr_resume m of
               Inl e \<Rightarrow> Inl e
             | Inr m' \<Rightarrow> Inr (r\<lparr>mediaRecorder := Some m'\<rparr>))
          else Inr r)"

text \<open>\<open>Object.values(this.streams)\<close>: the three slots in insertion order.\<close>

definition stream_values :: "streams_slots \<Rightarrow> stream option list" where
  "stream_values ss = [screen ss, webcam ss, combined ss]"

definition stop_slot :: "stream option \<Rightarrow> host \<Rightarrow> host" where
  "stop_slot slot h = (case slot of None \<Rightarrow> h | Some s \<Rightarrow> stop_tracks s h)"

text \<open>
  \<open>AudioContext.close()\<close>: the returned promise rejects when the host says so or when
  the context is closed already; otherwise the context is closed.
\<close>

definition ctx_close :: "nat \<Rightarrow> host \<Rightarrow> host" where
  "ctx_close a h =
     (if close_rejects h a \<or> a \<in> set (closed_contexts h) then h
      else h\<lparr>closed_contexts := closed_contexts h @ [a]\<rparr>)"

text \<open>
  \<open>cleanup()\<close>, statement by statement. It has one suspension point, the \<open>await\<close> on
  \<open>audioContext.close()\<close>. \<open>cleanup_sync\<close> is the code up to and including the call of
  \<open>close()\<close>: the recorder object is stopped when it is active and the reference is
  dropped, all tracks are stopped, the slots are reset. \<open>cleanup_resume\<close> is the code
  after it; a rejected \<open>close()\<close> is caught, so it runs either way. With no audio
  context there is no suspension and the second part follows at once.
\<close>

definition cleanup_sync :: "'u Recorder \<Rightarrow> host \<Rightarrow> 'u Recorder \<times> host" where
  "cleanup_sync r h =
     (let r1 = r\<lparr>isRecording := False\<rparr>;
          r2 = (case mediaRecorder r1 of
                  None \<Rightarrow> r1
                | Some m \<Rightarrow>
                    if state m = Recording \<or> state m = Paused
                    then r1\<lparr>mediaRecorder := Some (mr_stop m)\<rparr> else r1);
          r3 = r2\<lparr>mediaRecorder := None\<rparr>;
          h1 = foldl (\<lambda>h slot. stop_slot slot h) h (stream_values (streams r3));
          r4 = r3\<lparr>streams := null_streams\<rparr>;
          h2 = stop_slot (canvasStream r4) h1;
          r5 = r4\<lparr>canvasStream := None\<rparr>;
          h3 = (case audioContext r5 of None \<Rightarrow> h2 | Some a \<Rightarrow> ctx_close a h2)
      in (r5, h3))"

definition cleanup_resume :: "'u Recorder \<Rightarrow> host \<Rightarrow> 'u Recorder \<times> host" where
  "cleanup_resume r h =
     (let r6 = r\<lparr>audioContext := None\<rparr>;
          h4 = (case worker r6 of
                  None \<Rightarrow> h
                | Some w \<Rightarrow> h\<lparr>terminated := terminated h @ [w]\<rparr>);
          r7 = r6\<lparr>worker := None\<rparr>;
          r8 = r7\<lparr>canvas := None\<rparr>;
          r9 = r8\<lparr>chunks := []\<rparr>
      in (r9, h4))"

text \<open>One invocation that runs to completion before anything else happens.\<close>

definition cleanup :: "'u Recorder \<Rightarrow> host \<Rightarrow> 'u Recorder \<times> host" where
  "cleanup r h = (case cleanup_sync r h of (r', h') \<Rightarrow> cleanup_resume r' h')"

text \<open>
  Two invocations where the second starts while the first is suspended: both first
  parts, then both second parts. The second part is the same code for either
  invocation, so the order in which the two resume does not matter.
\<close>

definition cleanup_overlapped :: "'u Recorder \<Rightarrow> host \<Rightarrow> 'u Recorder \<times> host" where
  "cleanup_overlapped r h =
     (case cleanup_sync r h of (r1, h1) \<Rightarrow>
        (case cleanup_sync r1 h1 of (r2, h2) \<Rightarrow>
           (case cleanup_resume r2 h2 of (r3, h3) \<Rightarrow> cleanup_resume r3 h3)))"

text \<open>
  \<open>handleStop\<close>: build the blob from the queue, clean up, resolve with the blob. Reading
  \<open>this.mediaRecorder.mimeType\<close> on a null recorder throws a TypeError, which the
  \<open>catch\<close> turns into a rejection after cleanup. The result is \<open>Inr\<close> of the value the
  promise resolves with (\<open>None\<close> for \<open>null\<close>), or \<open>Inl\<close> of the rejection.
\<close>

definition handleStop :: "'u Recorder \<Rightarrow> host \<Rightarrow> 'u Recorder \<times> host \<times> (js_error + blob option)" where
  "handleStop r h =
     (case mediaRecorder r of
        None \<Rightarrow> (case cleanup r h of (r', h') \<Rightarrow> (r', h', Inl (Error ''TypeError'')))
      | Some m \<Rightarrow>
          (let b = new_Blob (chunks r) (if mimeType m = [] then ''video/webm'' else mimeType m)
           in case cleanup r h of (r', h') \<Rightarrow> (r', h', Inr (Some b))))"

text \<open>
  \<open>stop()\<close> up to the point where it returns its promise. With no encoder the promise
  resolves with \<open>null\<close>. Otherwise \<open>handleStop\<close> is registered for the encoder's
  \<open>stop\<close> event; on an active encoder \<open>mediaRecorder.stop()\<close> is called, which makes
  it inactive, and the promise stays pending until the event; on an inactive encoder
  \<open>handleStop\<close> runs at once. The third component is what the promise has settled with
  when \<open>stop()\<close> returns, \<open>None\<close> while it is pending.
\<close>

definition stop :: "'u Recorder \<Rightarrow> host \<Rightarrow> 'u Recorder \<times> host \<times> (js_error + blob option) option" where
  "stop r h =
     (case mediaRecorder r of
        None \<Rightarrow> (r, h, Some (Inr None))
      | Some m \<Rightarrow>
          if state m = Recording \<or> state m = Paused
          then (r\<lparr>mediaRecorder := Some (mr_stop m)\<rparr>, h, None)
          else (case handleStop r h of (r', h', res) \<Rightarrow> (r', h', Some res)))"

text \<open>
  The encoder stopping, some time after \<open>mediaRecorder.stop()\<close>: the host delivers one
  last \<open>dataavailable\<close> event (payload \<open>final\<close>) and then the \<open>stop\<close> event, which
  runs the \<open>handleStop\<close> listeners registered on the encoder, oldest first. The encoder
  is a host object, so both events arrive whether or not the recorder still refers to
  it, and they find the recorder as the calls made in between have left it. The list
  holds, per listener, what it settles its promise with.
\<close>

fun stop_listeners :: "nat \<Rightarrow> 'u Recorder \<Rightarrow> host \<Rightarrow> 'u Recorder \<times> host \<times> (js_error + blob option) list" where
  "stop_listeners 0 r h = (r, h, [])"
| "stop_listeners (Suc n) r h =
     (case handleStop r h of
        (r', h', res) \<Rightarrow>
          (case stop_listeners n r' h' of (r'', h'', rs) \<Rightarrow> (r'', h'', res # rs)))"

definition encoder_stopped ::
  "nat \<Rightarrow> 'u Recorder \<Rightarrow> blob option \<Rightarrow> 'u page \<Rightarrow> host
     \<Rightarrow> 'u Recorder \<times> 'u page \<times> host \<times> (js_error + blob option) list" where
  "encoder_stopped n r final p h =
     (case ondataavailable r final p of
        (r2, p2) \<Rightarrow>
          (case stop_listeners n r2 h of (r3, h3, rs) \<Rightarrow> (r3, p2, h3, rs)))"

text \<open>All tracks the recorder holds: the three stream slots and the canvas stream.\<close>

definition held_tracks :: "'u Recorder \<Rightarrow> track list" where
  "held_tracks r =
     concat (map (\<lambda>slot. case slot of None \<Rightarrow> [] | Some s \<Rightarrow> s)
                 (stream_values (streams r) @ [canvasStream r]))"

section \<open>start: stream setup, combined stream, recorder setup\<close>

record video_cfg =
  width :: nat
  height :: nat
  frameRate :: nat

record audio_cfg =
  system :: bool
  mic :: bool

record bitrate_cfg =
  bitrate_video :: nat
  bitrate_audio :: nat

record config =
  mode :: string
  video :: video_cfg
  audio :: audio_cfg
  deviceId :: string
  bitrate :: bitrate_cfg

text \<open>
  An asynchronous method leaves a state behind and either returns, throws (its promise
  rejects), or waits for an event the host never delivers.
\<close>

datatype outcome = Returned | Threw js_error | Never

type_synonym 'u st = "'u Recorder \<times> host"

definition and_then :: "('u st \<Rightarrow> 'u st \<times> outcome) \<Rightarrow> ('u st \<Rightarrow> 'u st \<times> outcome) \<Rightarrow> 'u st \<Rightarrow> 'u st \<times> outcome" where
  "and_then a b s = (case a s of (s', Returned) \<Rightarrow> b s' | (s', out) \<Rightarrow> (s', out))"

text \<open>\<open>try { a } catch (error) { throw new Error(prefix + error.message) }\<close>\<close>

definition rethrow :: "string \<Rightarrow> ('u st \<Rightarrow> 'u st \<times> outcome) \<Rightarrow> 'u st \<Rightarrow> 'u st \<times> outcome" where
  "rethrow prefix a s =
     (case a s of
        (s', Threw e) \<Rightarrow> (s', Threw (Error (prefix @ message e)))
      | (s', out) \<Rightarrow> (s', out))"

text \<open>
  Screen capture: the stream is stored, then the \<open>ended\<close> listener is attached to its
  first video track; with no video track that access throws a TypeError.
\<close>

definition acquire_screen :: "config \<Rightarrow> 'u st \<Rightarrow> 'u st \<times> outcome" where
  "acquire_screen cfg s =
     (case s of (r, h) \<Rightarrow>
        if mode cfg = ''screen'' \<or> mode cfg = ''combined'' then
          (case getDisplayMedia h of
             Inl e \<Rightarrow> (s, Threw e)
           | Inr str \<Rightarrow>
               (let r' = r\<lparr>streams := (streams r)\<lparr>screen := Some str\<rparr>\<rparr>
                in if getVideoTracks str = [] then ((r', h), Threw (Error ''TypeError''))
                   else ((r', h), Returned)))
        else (s, Returned))"

definition acquire_webcam :: "config \<Rightarrow> 'u st \<Rightarrow> 'u st \<times> outcome" where
  "acquire_webcam cfg s =
     (case s of (r, h) \<Rightarrow>
        if mode cfg = ''webcam'' \<or> mode cfg = ''combined'' then
          (case getUserMedia h of
             Inl e \<Rightarrow> (s, Threw e)
           | Inr str \<Rightarrow> ((r\<lparr>streams := (streams r)\<lparr>webcam := Some str\<rparr>\<rparr>, h), Returned))
        else (s, Returned))"

text \<open>The audio tracks selected by the configuration flags, microphone first.\<close>

definition selected_audio :: "config \<Rightarrow> 'u Recorder \<Rightarrow> track list" where
  "selected_audio cfg r =
     (if mic (audio cfg) then (case webcam (streams r) of None \<Rightarrow> [] | Some w \<Rightarrow> getAudioTracks w) else [])
     @ (if system (audio cfg) then (case screen (streams r) of None \<Rightarrow> [] | Some s \<Rightarrow> getAudioTracks s) else [])"

text \<open>
  \<open>combineAudioTracks\<close>: with no audio the combined stream is the canvas stream itself;
  otherwise the canvas video tracks plus the mixed destination tracks, or, when building
  the mixing graph throws, plus the first audio track unmixed. Reading the tracks of a
  null canvas stream throws a TypeError.
\<close>

definition single_track_fallback :: "track list \<Rightarrow> 'u st \<Rightarrow> 'u st \<times> outcome" where
  "single_track_fallback audioTracks s =
     (case s of (r, h) \<Rightarrow>
        (case canvasStream r of
           None \<Rightarrow> (s, Threw (Error ''TypeError''))
         | Some cs \<Rightarrow>
             ((r\<lparr>streams := (streams r)\<lparr>combined := Some (getVideoTracks cs @ take 1 audioTracks)\<rparr>\<rparr>, h),
              Returned)))"

definition combineAudioTracks :: "config \<Rightarrow> 'u st \<Rightarrow> 'u st \<times> outcome" where
  "combineAudioTracks cfg s =
     (case s of (r, h) \<Rightarrow>
        let audioTracks = selected_audio cfg r
        in if audioTracks = [] then
             ((r\<lparr>streams := (streams r)\<lparr>combined := canvasStream r\<rparr>\<rparr>, h), Returned)
           else
             (case new_AudioContext h of
                Inl e \<Rightarrow> single_track_fallback audioTracks s
              | Inr ctx \<Rightarrow>
                  (let r1 = r\<lparr>audioContext := Some ctx\<rparr>
                   in case createDestination h of
                        Inl e \<Rightarrow> single_track_fallback audioTracks (r1, h)
                      | Inr dest \<Rightarrow>
                          (case canvasStream r1 of
                             None \<Rightarrow> single_track_fallback audioTracks (r1, h)
                           | Some cs \<Rightarrow>
                               ((r1\<lparr>streams := (streams r1)\<lparr>combined := Some (getVideoTracks cs @ dest)\<rparr>\<rparr>, h),
                                Returned)))))"

text \<open>
  \<open>combineAudioWithVideoTrack\<close>: the same mixing around a given video track; it returns
  the stream and never throws.
\<close>

definition combineAudioWithVideoTrack :: "track \<Rightarrow> config \<Rightarrow> 'u st \<Rightarrow> 'u st \<times> stream" where
  "combineAudioWithVideoTrack videoTrack cfg s =
     (case s of (r, h) \<Rightarrow>
        let audioTracks = selected_audio cfg r
        in if audioTracks = [] then (s, [videoTrack])
           else
             (case new_AudioContext h of
                Inl e \<Rightarrow> (s, videoTrack # take 1 audioTracks)
              | Inr ctx \<Rightarrow>
                  (let r1 = r\<lparr>audioContext := Some ctx\<rparr>
                   in case createDestination h of
                        Inl e \<Rightarrow> ((r1, h), videoTrack # take 1 audioTracks)
                      | Inr dest \<Rightarrow> ((r1, h), videoTrack # dest))))"

text \<open>
  \<open>createCombinedStreamCanvas\<close>: size the canvas from the configuration, wait for both
  video elements to report metadata, start the redraw loop, capture the canvas, mix the
  audio. The wait is either over at once or never over.
\<close>

definition createCombinedStreamCanvas :: "config \<Rightarrow> 'u st \<Rightarrow> 'u st \<times> outcome" where
  "createCombinedStreamCanvas cfg s =
     (case s of (r, h) \<Rightarrow>
        let r1 = r\<lparr>canvas := Some (width (video cfg), height (video cfg))\<rparr>
        in if \<not> loadedmetadata h then ((r1, h), Never)
           else
             (case captureStream h of
                Inl e \<Rightarrow> ((r1, h), Threw e)
              | Inr cs \<Rightarrow> combineAudioTracks cfg (r1\<lparr>canvasStream := Some cs\<rparr>, h)))"

text \<open>\<open>fallbackToCanvas\<close>: terminate the worker if there is one, then take the canvas path.\<close>

definition fallbackToCanvas :: "config \<Rightarrow> 'u st \<Rightarrow> 'u st \<times> outcome" where
  "fallbackToCanvas cfg s =
     (case s of (r, h) \<Rightarrow>
        createCombinedStreamCanvas cfg
          (case worker r of
             None \<Rightarrow> (r, h)
           | Some w \<Rightarrow> (r\<lparr>worker := None\<rparr>, h\<lparr>terminated := terminated h @ [w]\<rparr>)))"

text \<open>
  \<open>createCombinedStreamWebCodecs\<close> returns a promise that its event handlers settle.
  The state of one such call: recorder, host, the promise, and the delay in milliseconds
  of the readiness timer while it is armed.
\<close>

datatype promise = Pending | Resolved | Rejected js_error

record 'u wc_state =
  wc_rec :: "'u Recorder"
  wc_host :: host
  wc_promise :: promise
  wc_timer :: "nat option"

text \<open>\<open>p.then(resolve).catch(reject)\<close>: settling a settled promise does nothing.\<close>

definition settle :: "outcome \<Rightarrow> promise \<Rightarrow> promise" where
  "settle out pr =
     (if pr \<noteq> Pending then pr
      else case out of Returned \<Rightarrow> Resolved | Threw e \<Rightarrow> Rejected e | Never \<Rightarrow> Pending)"

definition onError :: "config \<Rightarrow> 'u wc_state \<Rightarrow> 'u wc_state" where
  "onError cfg st =
     (case fallbackToCanvas cfg (wc_rec st, wc_host st) of
        ((r', h'), out) \<Rightarrow>
          st\<lparr>wc_rec := r', wc_host := h', wc_promise := settle out (wc_promise st)\<rparr>)"

text \<open>The \<open>catch\<close> of the setup: the canvas path, whose result settles the promise.\<close>

definition setup_failed :: "config \<Rightarrow> 'u st \<Rightarrow> 'u wc_state" where
  "setup_failed cfg s =
     (case createCombinedStreamCanvas cfg s of
        ((r', h'), out) \<Rightarrow>
          \<lparr>wc_rec = r', wc_host = h', wc_promise = settle out Pending, wc_timer = None\<rparr>)"

text \<open>
  The synchronous part: create the worker, take the first video track of each source,
  build the processors and the generator and post them to the worker
  (\<open>new_TrackProcessors\<close> is the exception any of that throws), arm the 5000 ms timer.
\<close>

definition wc_init :: "config \<Rightarrow> 'u st \<Rightarrow> 'u wc_state" where
  "wc_init cfg s =
     (case s of (r, h) \<Rightarrow>
        (case new_Worker h of
           Inl e \<Rightarrow> setup_failed cfg s
         | Inr w \<Rightarrow>
             (let r1 = r\<lparr>worker := Some w\<rparr>
              in (case (screen (streams r1), webcam (streams r1)) of
                    (Some ss, Some ws) \<Rightarrow>
                      if getVideoTracks ss = [] \<or> getVideoTracks ws = [] then setup_failed cfg (r1, h)
                      else (case new_TrackProcessors h of
                              Some e \<Rightarrow> setup_failed cfg (r1, h)
                            | None \<Rightarrow> \<lparr>wc_rec = r1, wc_host = h, wc_promise = Pending,
                                        wc_timer = Some 5000\<rparr>)
                  | _ \<Rightarrow> setup_failed cfg (r1, h)))))"

text \<open>
  One event. A worker message reaches \<open>onmessage\<close> only while the worker exists. The
  timer fires once and falls back only if no combined stream is set yet.
\<close>

definition on_ready :: "config \<Rightarrow> 'u wc_state \<Rightarrow> 'u wc_state" where
  "on_ready cfg st =
     (case combineAudioWithVideoTrack (generator_track (wc_host st)) cfg (wc_rec st, wc_host st) of
        ((r', h'), str) \<Rightarrow>
          st\<lparr>wc_rec := r'\<lparr>streams := (streams r')\<lparr>combined := Some str\<rparr>\<rparr>, wc_host := h',
             wc_promise := settle Returned (wc_promise st)\<rparr>)"

definition wc_step :: "config \<Rightarrow> wc_event \<Rightarrow> 'u wc_state \<Rightarrow> 'u wc_state" where
  "wc_step cfg ev st =
     (case ev of
        MsgReady \<Rightarrow> if worker (wc_rec st) = None then st else on_ready cfg st
      | MsgError d \<Rightarrow> if worker (wc_rec st) = None then st else onError cfg st
      | MsgOther \<Rightarrow> st
      | TimerFired \<Rightarrow>
          (case wc_timer st of
             None \<Rightarrow> st
           | Some ms \<Rightarrow>
               if combined (streams (wc_rec st)) = None then onError cfg (st\<lparr>wc_timer := None\<rparr>)
               else st\<lparr>wc_timer := None\<rparr>))"



text \<open>
  \<open>await\<close> on the promise: events are handled until it settles; if the host delivers
  no further event while it is pending, the caller waits forever.
\<close>

definition awaited :: "'u wc_state \<Rightarrow> 'u st \<times> outcome" where
  "awaited st =
     ((wc_rec st, wc_host st),
      case wc_promise st of Resolved \<Rightarrow> Returned | Rejected e \<Rightarrow> Threw e | Pending \<Rightarrow> Never)"

fun wc_await :: "config \<Rightarrow> wc_event list \<Rightarrow> 'u wc_state \<Rightarrow> 'u st \<times> outcome" where
  "wc_await cfg [] st = awaited st"
| "wc_await cfg (ev # rest) st =
     (if wc_promise st = Pending then wc_await cfg rest (wc_step cfg ev st) else awaited st)"

definition createCombinedStreamWebCodecs :: "config \<Rightarrow> 'u st \<Rightarrow> 'u st \<times> outcome" where
  "createCombinedStreamWebCodecs cfg s = wc_await cfg (worker_events (snd s)) (wc_init cfg s)"

definition createCombinedStream :: "config \<Rightarrow> 'u st \<Rightarrow> 'u st \<times> outcome" where
  "createCombinedStream cfg s =
     (if webCodecs (capabilities (fst s)) \<and> offscreenCanvas (capabilities (fst s))
      then createCombinedStreamWebCodecs cfg s
      else createCombinedStreamCanvas cfg s)"

definition setupStreams :: "config \<Rightarrow> 'u st \<Rightarrow> 'u st \<times> outcome" where
  "setupStreams cfg =
     rethrow ''Stream setup failed: ''
       (and_then (acquire_screen cfg)
          (and_then (acquire_webcam cfg)
             (\<lambda>s. if mode cfg = ''combined'' then createCombinedStream cfg s else (s, Returned))))"

text \<open>
  The tracks the host hands out during \<open>setupStreams\<close>: the display stream when it is
  requested and granted, and the camera stream when it is requested, granted, and the
  screen step before it did not throw.
\<close>

definition acquired_tracks :: "config \<Rightarrow> host \<Rightarrow> track list" where
  "acquired_tracks cfg h =
     (let wants_screen = (mode cfg = ''screen'' \<or> mode cfg = ''combined'');
          wants_webcam = (mode cfg = ''webcam'' \<or> mode cfg = ''combined'');
          granted = (if wants_screen
                     then (case getDisplayMedia h of Inl e \<Rightarrow> None | Inr s \<Rightarrow> Some s)
                     else None);
          screen_ok = (if wants_screen
                       then (case granted of None \<Rightarrow> False | Some s \<Rightarrow> getVideoTracks s \<noteq> [])
                       else True)
      in (case granted of None \<Rightarrow> [] | Some s \<Rightarrow> s)
         @ (if wants_webcam \<and> screen_ok
            then (case getUserMedia h of Inl e \<Rightarrow> [] | Inr w \<Rightarrow> w) else []))"

text \<open>The source slots of two recorders agree; the tracks in the source slots.\<close>

definition same_sources :: "'u Recorder \<Rightarrow> 'u Recorder \<Rightarrow> bool" where
  "same_sources r r' = (screen (streams r') = screen (streams r) \<and> webcam (streams r') = webcam (streams r))"

definition source_tracks :: "'u Recorder \<Rightarrow> track list" where
  "source_tracks r = (case screen (streams r) of None \<Rightarrow> [] | Some s \<Rightarrow> s)
                   @ (case webcam (streams r) of None \<Rightarrow> [] | Some s \<Rightarrow> s)"

text \<open>Codec negotiation: the first entry of the preference list the host supports.\<close>

definition mimeTypes :: "string list" where
  "mimeTypes = [''video/webm;codecs=vp9,opus'', ''video/webm;codecs=vp8,opus'',
                ''video/webm;codecs=h264,opus'', ''video/webm'']"

fun select_mime :: "(string \<Rightarrow> bool) \<Rightarrow> string list \<Rightarrow> string option" where
  "select_mime supported [] = None"
| "select_mime supported (m # ms) = (if supported m then Some m else select_mime supported ms)"

definition select_stream :: "config \<Rightarrow> 'u Recorder \<Rightarrow> js_error + stream option" where
  "select_stream cfg r =
     (if mode cfg = ''screen'' then Inr (screen (streams r))
      else if mode cfg = ''webcam'' then Inr (webcam (streams r))
      else if mode cfg = ''combined'' then Inr (combined (streams r))
      else Inl (Error (''Unknown recording mode: '' @ mode cfg)))"

definition setupRecorder :: "config \<Rightarrow> 'u st \<Rightarrow> 'u st \<times> outcome" where
  "setupRecorder cfg s =
     (case s of (r, h) \<Rightarrow>
       (case select_stream cfg r of
          Inl e \<Rightarrow> (s, Threw e)
        | Inr None \<Rightarrow> (s, Threw (Error ''No stream available for recording''))
        | Inr (Some str) \<Rightarrow>
            (case select_mime (isTypeSupported h) mimeTypes of
               None \<Rightarrow> (s, Threw (Error ''No supported video format found''))
             | Some mt \<Rightarrow>
                 if mt = [] then (s, Threw (Error ''No supported video format found''))
                 else
                   ((r\<lparr>mediaRecorder := Some \<lparr>state = Inactive, mimeType = mt, mr_stream = str,
                                              videoBitsPerSecond = bitrate_video (bitrate cfg),
                                              audioBitsPerSecond = bitrate_audio (bitrate cfg)\<rparr>,
                       chunks := []\<rparr>, h), Returned))))"

text \<open>\<open>this.mediaRecorder.start(1000); this.isRecording = true\<close>\<close>

definition recorder_start :: "'u st \<Rightarrow> 'u st \<times> outcome" where
  "recorder_start s =
     (case s of (r, h) \<Rightarrow>
       (case mediaRecorder r of
          None \<Rightarrow> (s, Threw (Error ''TypeError''))
        | Some m \<Rightarrow>
            (case mr_start m of
               Inl e \<Rightarrow> (s, Threw e)
             | Inr m' \<Rightarrow> ((r\<lparr>mediaRecorder := Some m', isRecording := True\<rparr>, h), Returned))))"

text \<open>\<open>start(config)\<close>: any exception is answered by \<open>cleanup()\<close> and rethrown wrapped.\<close>

definition start :: "config \<Rightarrow> 'u st \<Rightarrow> 'u st \<times> outcome" where
  "start cfg s =
     (case and_then (setupStreams cfg) (and_then (setupRecorder cfg) recorder_start) s of
        ((r', h'), Threw e) \<Rightarrow>
          (cleanup r' h', Threw (Error (''Failed to start recording: '' @ message e)))
      | (s', out) \<Rightarrow> (s', out))"

section \<open>The two compositors\<close>

text \<open>
  What a compositor draws is the sequence of 2D-context calls it makes. JavaScript
  numbers are modelled as exact rationals (the factor \<open>0.2\<close> as one fifth); the rounding
  of IEEE doubles is not modelled.
\<close>

datatype image_source = ScreenSource | WebcamSource

datatype draw_cmd =
    FillRect string rat rat rat rat
  | DrawImage image_source rat rat rat rat
  | Save
  | Scale rat rat
  | Restore
  | StrokeRect string rat rat rat rat rat

text \<open>
  The software compositor (\<open>drawFrame\<close> in \<open>createCombinedStreamCanvas\<close>): one redraw,
  given the video elements' intrinsic sizes as (videoWidth, videoHeight). The arguments
  of \<open>StrokeRect\<close> are the stroke style, the line width and the rectangle.
\<close>

definition drawFrame :: "'u Recorder \<Rightarrow> video_cfg \<Rightarrow> nat \<times> nat \<Rightarrow> nat \<times> nat \<Rightarrow> draw_cmd list" where
  "drawFrame r v screenVideo webcamVideo =
     (if screen (streams r) = None \<and> webcam (streams r) = None then []
      else
        [FillRect ''#000'' 0 0 (of_nat (width v)) (of_nat (height v))]
        @ (if fst screenVideo > 0 \<and> snd screenVideo > 0
           then [DrawImage ScreenSource 0 0 (of_nat (width v)) (of_nat (height v))] else [])
        @ (if fst webcamVideo > 0 \<and> snd webcamVideo > 0 then
             (let pipWidth = min 200 (of_nat (width v) * (2 / 10));
                  pipHeight = (pipWidth * of_nat (snd webcamVideo)) / of_nat (fst webcamVideo);
                  pipX = of_nat (width v) - pipWidth - 20;
                  pipY = of_nat (height v) - pipHeight - 20
              in [Save, Scale (- 1) 1,
                  DrawImage WebcamSource (- pipX - pipWidth) pipY pipWidth pipHeight,
                  Restore,
                  StrokeRect ''#fff'' 2 pipX pipY pipWidth pipHeight])
           else []))"

text \<open>
  The accelerated compositor (compositor.worker.js). A VideoFrame has an identity, a
  display size and possibly a numeric timestamp.
\<close>

record frame =
  frame_id :: nat
  displayWidth :: nat
  displayHeight :: nat
  timestamp :: "int option"

text \<open>\<open>Math.floor\<close> on a number.\<close>

definition Math_floor :: "rat \<Rightarrow> rat" where
  "Math_floor x = of_int \<lfloor>x\<rfloor>"

text \<open>The drawing part of one iteration of \<open>composeLoop\<close>, on a canvas of size (W, H).\<close>

definition compose :: "nat \<times> nat \<Rightarrow> frame \<Rightarrow> draw_cmd list" where
  "compose cv webcamFrame =
     (let W = of_nat (fst cv); H = of_nat (snd cv);
          pipW = min 200 (Math_floor (W * (2 / 10)));
          pipH = Math_floor ((pipW * of_nat (displayHeight webcamFrame)) / of_nat (displayWidth webcamFrame));
          pipX = W - pipW - 20;
          pipY = H - pipH - 20
      in [FillRect ''#000'' 0 0 W H,
          DrawImage ScreenSource 0 0 W H,
          Save, Scale (- 1) 1,
          DrawImage WebcamSource (- pipX - pipW) pipY pipW pipH,
          Restore,
          StrokeRect ''#fff'' 2 pipX pipY pipW pipH])"

text \<open>
  The layout in the words of the specification: black background, primary frame over
  the full canvas, secondary frame mirrored as an inset of the given size at the
  bottom-right with a 20 pixel margin, then a 2 pixel border around the inset.
\<close>

definition spec_layout :: "rat \<Rightarrow> rat \<Rightarrow> rat \<Rightarrow> rat \<Rightarrow> draw_cmd list" where
  "spec_layout W H insetW insetH =
     [FillRect ''#000'' 0 0 W H,
      DrawImage ScreenSource 0 0 W H,
      Save, Scale (- 1) 1,
      DrawImage WebcamSource (- (W - insetW - 20) - insetW) (H - insetH - 20) insetW insetH,
      Restore,
      StrokeRect ''#fff'' 2 (W - insetW - 20) (H - insetH - 20) insetW insetH]"

definition spec_inset_width :: "nat \<Rightarrow> rat" where
  "spec_inset_width W = min 200 (of_nat W * (2 / 10))"

text \<open>The height that keeps the secondary frame's aspect ratio at a given inset width.\<close>

definition scaled_height :: "rat \<Rightarrow> frame \<Rightarrow> rat" where
  "scaled_height insetW f = insetW * of_nat (displayHeight f) / of_nat (displayWidth f)"

section \<open>The compose loop of the worker\<close>

text \<open>
  The loop runs between suspension points; the state records where it is suspended.
  A reader is the sequence of frames its source will still deliver; reading past the end
  reports \<open>done\<close>. \<open>open_screen\<close>, \<open>open_webcam\<close> and \<open>open_composed\<close> are the frames
  handed to the loop, or created by it, that have not been closed.
\<close>

datatype read_result = ReadDone | ReadValue frame

datatype loop_pc =
    LoopHead
  | AwaitReads
  | GotReads read_result read_result
  | AwaitWrite frame
  | Exited
  | Failed

record worker_state =
  isRunning :: bool
  w_frameRate :: nat
  w_canvas :: "nat \<times> nat"
  lastFrameTime :: rat
  loop_now :: rat
  screenFrame :: "frame option"
  webcamFrame :: "frame option"
  screenReader :: "frame list"
  webcamReader :: "frame list"
  open_screen :: "frame list"
  open_webcam :: "frame list"
  open_composed :: "frame list"
  frames_created :: nat
  written :: "(frame \<times> draw_cmd list) list"
  drawn :: "draw_cmd list"
  writer_closed :: bool
  pc :: loop_pc

text \<open>
  What the host contributes to one step: the clock, whether drawing a frame fails on
  both routes, whether the pending write is rejected, and whether a \<open>stop\<close> message
  arrived. An exception ends \<open>composeLoop\<close> at once, without the code after the loop.
\<close>

record tick =
  now :: rat
  draw_rejects :: bool
  write_rejects :: bool
  stop_message :: bool

text \<open>The \<open>init\<close> message: canvas, readers and writer are set up and the loop starts.\<close>

definition worker_init :: "video_cfg \<Rightarrow> frame list \<Rightarrow> frame list \<Rightarrow> worker_state" where
  "worker_init cfg screenReadable webcamReadable =
     \<lparr>isRunning = True, w_frameRate = frameRate cfg, w_canvas = (width cfg, height cfg),
      lastFrameTime = 0, loop_now = 0, screenFrame = None, webcamFrame = None,
      screenReader = screenReadable, webcamReader = webcamReadable,
      open_screen = [], open_webcam = [], open_composed = [], frames_created = 0,
      written = [], drawn = [], writer_closed = False, pc = LoopHead\<rparr>"

definition targetFrameTime :: "worker_state \<Rightarrow> rat" where
  "targetFrameTime ws = 1000 / of_nat (if w_frameRate ws = 0 then 30 else w_frameRate ws)"

definition read_next :: "frame list \<Rightarrow> read_result" where
  "read_next rd = (case rd of [] \<Rightarrow> ReadDone | f # _ \<Rightarrow> ReadValue f)"

definition delivered :: "read_result \<Rightarrow> frame list" where
  "delivered res = (case res of ReadDone \<Rightarrow> [] | ReadValue f \<Rightarrow> [f])"

text \<open>\<open>if (frame) frame.close()\<close>\<close>

definition close_held :: "frame option \<Rightarrow> frame list \<Rightarrow> frame list" where
  "close_held held opened = (case held of None \<Rightarrow> opened | Some f \<Rightarrow> remove1 f opened)"

text \<open>The code after the loop: close the held frames, close the writer.\<close>

definition loop_exit :: "worker_state \<Rightarrow> worker_state" where
  "loop_exit ws =
     ws\<lparr>open_screen := close_held (screenFrame ws) (open_screen ws),
        open_webcam := close_held (webcamFrame ws) (open_webcam ws),
        writer_closed := True, pc := Exited\<rparr>"

text \<open>\<open>new VideoFrame(canvas, {timestamp})\<close>; \<open>Math.round\<close> rounds half up.\<close>

definition composed_frame :: "worker_state \<Rightarrow> frame \<Rightarrow> frame" where
  "composed_frame ws sf =
     \<lparr>frame_id = frames_created ws, displayWidth = fst (w_canvas ws),
      displayHeight = snd (w_canvas ws),
      timestamp = (case timestamp sf of
                     Some ts \<Rightarrow> Some ts
                   | None \<Rightarrow> Some \<lfloor>loop_now ws * 1000 + 1 / 2\<rfloor>)\<rparr>"

definition loop_step :: "tick \<Rightarrow> worker_state \<Rightarrow> worker_state" where
  "loop_step t ws =
     (case pc ws of
        LoopHead \<Rightarrow>
          if \<not> isRunning ws then loop_exit ws
          else if now t - lastFrameTime ws < targetFrameTime ws then ws
          else ws\<lparr>loop_now := now t, pc := AwaitReads\<rparr>
      | AwaitReads \<Rightarrow>
          (let s = read_next (screenReader ws); w = read_next (webcamReader ws)
           in ws\<lparr>screenReader := drop 1 (screenReader ws),
                 webcamReader := drop 1 (webcamReader ws),
                 open_screen := open_screen ws @ delivered s,
                 open_webcam := open_webcam ws @ delivered w,
                 pc := GotReads s w\<rparr>)
      | GotReads s w \<Rightarrow>
          (case (s, w) of
             (ReadValue s_frame, ReadValue w_frame) \<Rightarrow>
               (let ws1 = ws\<lparr>open_screen := close_held (screenFrame ws) (open_screen ws),
                              open_webcam := close_held (webcamFrame ws) (open_webcam ws),
                              screenFrame := Some s_frame, webcamFrame := Some w_frame,
                              drawn := compose (w_canvas ws) w_frame\<rparr>;
                    c = composed_frame ws1 s_frame
                in if draw_rejects t then ws1\<lparr>pc := Failed\<rparr>
                   else ws1\<lparr>open_composed := open_composed ws1 @ [c],
                            frames_created := frames_created ws1 + 1,
                            pc := AwaitWrite c\<rparr>)
           | _ \<Rightarrow> loop_exit ws)
      | AwaitWrite c \<Rightarrow>
          if write_rejects t \<or> writer_closed ws then ws\<lparr>pc := Failed\<rparr>
          else ws\<lparr>written := written ws @ [(c, drawn ws)],
                  open_composed := remove1 c (open_composed ws),
                  lastFrameTime := loop_now ws, pc := LoopHead\<rparr>
      | Exited \<Rightarrow> ws
      | Failed \<Rightarrow> ws)"

text \<open>The worker's \<open>stop()\<close>: clear the flag and close the writer.\<close>

definition worker_stop :: "worker_state \<Rightarrow> worker_state" where
  "worker_stop ws = ws\<lparr>isRunning := False, writer_closed := True\<rparr>"

definition worker_step :: "tick \<Rightarrow> worker_state \<Rightarrow> worker_state" where
  "worker_step t ws = loop_step t (if stop_message t then worker_stop ws else ws)"

definition worker_run :: "tick list \<Rightarrow> worker_state \<Rightarrow> worker_state" where
  "worker_run ts ws = foldl (\<lambda>ws t. worker_step t ws) ws ts"

text \<open>
  The frames the loop still owns at each suspension point: the held frame of each input,
  plus what a read has just delivered, plus the composed frame while its write is pending.
\<close>

definition held :: "frame option \<Rightarrow> frame list" where
  "held slot = (case slot of None \<Rightarrow> [] | Some f \<Rightarrow> [f])"

definition loop_inv :: "worker_state \<Rightarrow> bool" where
  "loop_inv ws =
     (case pc ws of
        LoopHead \<Rightarrow> open_screen ws = held (screenFrame ws) \<and> open_webcam ws = held (webcamFrame ws)
                    \<and> open_composed ws = []
      | AwaitReads \<Rightarrow> open_screen ws = held (screenFrame ws) \<and> open_webcam ws = held (webcamFrame ws)
                    \<and> open_composed ws = []
      | GotReads s w \<Rightarrow> open_screen ws = held (screenFrame ws) @ delivered s
                    \<and> open_webcam ws = held (webcamFrame ws) @ delivered w
                    \<and> open_composed ws = []
      | AwaitWrite c \<Rightarrow> open_screen ws = held (screenFrame ws) \<and> open_webcam ws = held (webcamFrame ws)
                    \<and> open_composed ws = [c]
      | Exited \<Rightarrow> length (open_screen ws) \<le> 1 \<and> length (open_webcam ws) \<le> 1
                    \<and> open_composed ws = []
      | Failed \<Rightarrow> length (open_screen ws) \<le> 1 \<and> length (open_webcam ws) \<le> 1
                    \<and> length (open_composed ws) \<le> 1)"


section \<open>Concrete sessions used in examples\<close>

definition chunk_of :: "nat list \<Rightarrow> blob option" where
  "chunk_of bs = Some \<lparr>bytes = bs, btype = ''video/webm''\<rparr>"

definition the_recorder :: MediaRecorder where
  "the_recorder = \<lparr>state = Recording, mimeType = ''video/webm'', mr_stream = [],
           videoBitsPerSecond = 5000000, audioBitsPerSecond = 128000\<rparr>"

definition recording_session :: "blob list \<Rightarrow> unit Recorder" where
  "recording_session q =
     constructor\<lparr>mediaRecorder := Some the_recorder,
                 chunks := q, isRecording := True\<rparr>"

definition idle_host :: host where
  "idle_host = \<lparr>ended = [], released = [], terminated = [], closed_contexts = [],
     close_rejects = (\<lambda>_. False), getDisplayMedia = Inr [], getUserMedia = Inr [],
     isTypeSupported = (\<lambda>_. True), new_Worker = Inr 0, new_TrackProcessors = None,
     generator_track = \<lparr>track_id = 0, kind = Video\<rparr>, loadedmetadata = True,
     captureStream = Inr [], new_AudioContext = Inr 0, createDestination = Inr [],
     worker_events = []\<rparr>"

definition two_bytes :: blob where
  "two_bytes = \<lparr>bytes = [1, 2], btype = ''video/webm''\<rparr>"

definition quiet_page :: "unit page" where
  "quiet_page = \<lparr>user = (), console = []\<rparr>"

text \<open>\<open>stop()\<close> on a recording session, then \<open>cleanup()\<close> before the encoder's stop event.\<close>

definition stop_called :: "unit Recorder \<times> host \<times> (js_error + blob option) option" where
  "stop_called = stop (recording_session [two_bytes]) idle_host"


text \<open>The same, with a second \<open>stop()\<close> in place of \<open>cleanup()\<close>.\<close>

definition stop_again :: "unit Recorder \<times> host \<times> (js_error + blob option) option" where
  "stop_again = stop (fst stop_called) (fst (snd stop_called))"

definition cam720 :: frame where
  "cam720 = \<lparr>frame_id = 0, displayWidth = 1280, displayHeight = 720, timestamp = None\<rparr>"

definition hd_video :: video_cfg where
  "hd_video = \<lparr>width = 1280, height = 720, frameRate = 30\<rparr>"

definition both_sources :: "unit Recorder" where
  "both_sources = constructor\<lparr>streams := \<lparr>screen = Some [], webcam = Some [], combined = None\<rparr>\<rparr>"

definition frame_no :: "nat \<Rightarrow> frame" where
  "frame_no n = \<lparr>frame_id = n, displayWidth = 1280, displayHeight = 720, timestamp = Some (int n)\<rparr>"

definition at_ms :: "rat \<Rightarrow> tick" where
  "at_ms ms = \<lparr>now = ms, draw_rejects = False, write_rejects = False, stop_message = False\<rparr>"

definition six_ticks :: "tick list" where
  "six_ticks = [at_ms 1000, at_ms 1001, at_ms 1002, at_ms 1003, at_ms 2000, at_ms 2001]"

definition screen_only :: config where
  "screen_only = \<lparr>mode = ''screen'', video = hd_video, audio = \<lparr>system = True, mic = False\<rparr>,
                   deviceId = [], bitrate = \<lparr>bitrate_video = 5000000, bitrate_audio = 128000\<rparr>\<rparr>"

definition display_stream :: stream where
  "display_stream = [\<lparr>track_id = 1, kind = Video\<rparr>, \<lparr>track_id = 2, kind = Audio\<rparr>]"

definition no_codec_host :: host where
  "no_codec_host = idle_host\<lparr>getDisplayMedia := Inr display_stream, isTypeSupported := (\<lambda>m. False)\<rparr>"

definition webm_only_host :: host where
  "webm_only_host = idle_host\<lparr>getDisplayMedia := Inr display_stream,
                               isTypeSupported := (\<lambda>m. m = ''video/webm'')\<rparr>"

definition combined_cfg :: config where
  "combined_cfg = \<lparr>mode = ''combined'', video = hd_video, audio = \<lparr>system = False, mic = False\<rparr>,
                    deviceId = [], bitrate = \<lparr>bitrate_video = 5000000, bitrate_audio = 128000\<rparr>\<rparr>"

definition camera_stream :: stream where
  "camera_stream = [\<lparr>track_id = 3, kind = Video\<rparr>, \<lparr>track_id = 4, kind = Audio\<rparr>]"

definition canvas_capture :: stream where
  "canvas_capture = [\<lparr>track_id = 5, kind = Video\<rparr>]"



definition logger :: "nat \<Rightarrow> nat list callback" where
  "logger n = (\<lambda>d u. (u @ [n], None))"

definition thrower :: "nat list callback" where
  "thrower = (\<lambda>d u. (u @ [0], Some (Error ''boom'')))"

definition granting_host :: host where
  "granting_host = idle_host\<lparr>getDisplayMedia := Inr display_stream, getUserMedia := Inr camera_stream,
      new_Worker := Inr 7, captureStream := Inr canvas_capture,
      generator_track := \<lparr>track_id = 6, kind = Video\<rparr>, worker_events := [MsgReady]\<rparr>"

definition capable :: "unit Recorder" where
  "capable = constructor\<lparr>capabilities := \<lparr>webCodecs = True, offscreenCanvas = True\<rparr>\<rparr>"


section \<open>Properties\<close>

subsection \<open>Event registry\<close>

lemma listeners_of_on: "listeners_of (on r ev cb) ev' = (if ev' = ev then listeners_of r ev @ [cb] else listeners_of r ev')"
  by (simp add: on_def listeners_of_def Let_def split: option.splits)

lemma listeners_of_register:
  "listeners_of (foldl (\<lambda>r cb. on r ev cb) r cbs) ev = listeners_of r ev @ cbs"
  by (induction cbs arbitrary: r) (simp_all add: listeners_of_on)

lemma forEach_guarded:
  "forEach (\<lambda>cb. try_catch (call_listener cb d) (console_error msg)) cbs p = (p', ex) \<Longrightarrow>
     ex = None \<and> user p' = run_all cbs d (user p)"
proof (induction cbs arbitrary: p)
  case Nil
  then show ?case by (simp add: run_all_def)
next
  case (Cons cb cbs)
  then show ?case
    by (auto simp: run_all_def try_catch_def call_listener_def console_error_def
             split: prod.splits option.splits)
qed

lemma emit_runs_all:
  "emit r ev d p = (p', ex) \<Longrightarrow> ex = None \<and> user p' = run_all (listeners_of r ev) d (user p)"
  unfolding emit_def listeners_of_def
  by (auto split: option.splits dest: forEach_guarded simp: run_all_def)

text \<open>
  C10. Whatever the registered listeners do, \<open>emit\<close> lets no exception out, and every
  listener registered for the event (those already present, then the ones added by
  successive calls of \<open>on\<close>, in that order) runs once on the same data: a listener that
  throws stops neither \<open>emit\<close> nor the listeners after it.
\<close>

theorem emit_isolates_listener_exceptions:
  "snd (emit (foldl (\<lambda>r cb. on r ev cb) r0 cbs) ev d p) = None \<and>
   user (fst (emit (foldl (\<lambda>r cb. on r ev cb) r0 cbs) ev d p))
     = run_all (listeners_of r0 ev @ cbs) d (user p)"
  using emit_runs_all[of "foldl (\<lambda>r cb. on r ev cb) r0 cbs" ev d p]
  by (metis listeners_of_register prod.collapse)

text \<open>
  Three listeners, the second of which throws after changing the state: \<open>emit\<close> runs
  all three and logs the exception; the same loop without the \<open>try\<close> stops at the second.
\<close>

lemma emit_example:
  "emit (on (on (on constructor ''error'' (logger 1)) ''error'' thrower) ''error'' (logger 2))
        ''error'' (ErrorData (Error ''stopped'')) \<lparr>user = [], console = []\<rparr>
     = (\<lparr>user = [1, 0, 2], console = [''Error in error listener: boom'']\<rparr>, None)"
  by (simp add: emit_def on_def constructor_def Let_def try_catch_def call_listener_def
        console_error_def logger_def thrower_def)

lemma forEach_unguarded_example:
  "forEach (\<lambda>cb. call_listener cb (ErrorData (Error ''stopped''))) [logger 1, thrower, logger 2]
        \<lparr>user = [], console = []\<rparr>
     = (\<lparr>user = [1, 0], console = []\<rparr>, Some (Error ''boom''))"
  by (simp add: call_listener_def logger_def thrower_def)

subsection \<open>Chunk queue\<close>

lemma ondataavailable_empty: "\<not> has_payload data \<Longrightarrow> ondataavailable r data p = (r, p)"
  by (auto simp: has_payload_def ondataavailable_def split: option.splits)

lemma ondataavailable_chunks:
  "has_payload data \<Longrightarrow>
   chunks (fst (ondataavailable r data p)) =
     (if maxChunks r \<le> length (chunks r) then shift (chunks r) else chunks r) @ [the data]"
  by (auto simp: has_payload_def ondataavailable_def Let_def split: option.splits)

lemma ondataavailable_fields:
  "maxChunks (fst (ondataavailable r data p)) = maxChunks r"
  "eventListeners (fst (ondataavailable r data p)) = eventListeners r"
  by (auto simp: ondataavailable_def Let_def split: option.splits)

lemma ondataavailable_user:
  "has_payload data \<Longrightarrow>
   user (snd (ondataavailable r data p)) =
     run_all (listeners_of r ''dataavailable'') (BlobData (the data)) (user p)"
proof -
  assume h: "has_payload data"
  then obtain b where b: "data = Some b" "blob_size b > 0"
    by (auto simp: has_payload_def split: option.splits)
  define r2 where "r2 = (if maxChunks r \<le> length (chunks r) then r\<lparr>chunks := shift (chunks r)\<rparr> else r)\<lparr>chunks := (if maxChunks r \<le> length (chunks r) then shift (chunks r) else chunks r) @ [b]\<rparr>"
  have l: "listeners_of r2 ''dataavailable'' = listeners_of r ''dataavailable''"
    by (simp add: r2_def listeners_of_def)
  have "snd (ondataavailable r data p) = fst (emit r2 ''dataavailable'' (BlobData b) p)"
    using b by (simp add: ondataavailable_def Let_def r2_def)
  then show ?thesis
    using emit_runs_all[of r2 "''dataavailable''" "BlobData b" p] l b
    by (metis option.sel prod.collapse)
qed

text \<open>
  C3. At a flush boundary with a non-empty payload the chunk is appended to the queue
  (after the oldest was dropped if the queue was full) and every \<open>dataavailable\<close>
  listener is called once with that chunk, which carries its size; with an absent or
  empty payload neither the recorder nor the page changes.
\<close>

theorem flush_enqueues_and_emits_iff_nonempty:
  "(if has_payload data
    then chunks (fst (ondataavailable r data p)) =
           (if maxChunks r \<le> length (chunks r) then shift (chunks r) else chunks r) @ [the data]
       \<and> user (snd (ondataavailable r data p)) =
           run_all (listeners_of r ''dataavailable'') (BlobData (the data)) (user p)
    else ondataavailable r data p = (r, p))"
  by (simp add: ondataavailable_empty ondataavailable_chunks ondataavailable_user)

lemma lastn_lastn_append: "lastn n (lastn n xs @ ys) = lastn n (xs @ ys)"
  by (cases "length xs \<le> n") (auto simp: lastn_def add.commute)

lemma nonempty_chunks_Cons:
  "nonempty_chunks (d # ds) = (if has_payload d then [the d] else []) @ nonempty_chunks ds"
  by (auto simp: nonempty_chunks_def has_payload_def split: option.splits)

lemma ondataavailable_lastn:
  assumes "0 < maxChunks r" "length (chunks r) \<le> maxChunks r"
  shows "chunks (fst (ondataavailable r d p)) = lastn (maxChunks r) (chunks r @ nonempty_chunks [d])"
proof (cases "has_payload d")
  case True
  then have ne: "nonempty_chunks [d] = [the d]"
    by (simp add: nonempty_chunks_Cons) (simp add: nonempty_chunks_def)
  show ?thesis
  proof (cases "maxChunks r \<le> length (chunks r)")
    case full: True
    then have "length (chunks r) = maxChunks r" using assms by simp
    then show ?thesis using True assms ne
      by (simp add: ondataavailable_chunks lastn_def shift_def)
  next
    case room: False
    then show ?thesis using True ne
      by (simp add: ondataavailable_chunks lastn_def)
  qed
next
  case False
  then have "nonempty_chunks [d] = []"
    by (simp add: nonempty_chunks_Cons) (simp add: nonempty_chunks_def)
  then show ?thesis using False assms
    by (simp add: ondataavailable_empty lastn_def)
qed

lemma length_lastn: "length (lastn n xs) \<le> n"
  by (simp add: lastn_def)

lemma flushes_lastn:
  "0 < maxChunks r \<Longrightarrow> length (chunks r) \<le> maxChunks r \<Longrightarrow>
   chunks (fst (flushes r p ds)) = lastn (maxChunks r) (chunks r @ nonempty_chunks ds)"
proof (induction ds arbitrary: r p)
  case Nil
  then show ?case by (simp add: nonempty_chunks_def lastn_def)
next
  case (Cons d ds)
  obtain r' p' where step: "ondataavailable r d p = (r', p')" by fastforce
  have c: "chunks r' = lastn (maxChunks r) (chunks r @ nonempty_chunks [d])"
    using ondataavailable_lastn[OF Cons.prems, of d p] step by simp
  have m: "maxChunks r' = maxChunks r"
    using ondataavailable_fields(1)[of r d p] step by simp
  have "chunks (fst (flushes r' p' ds)) = lastn (maxChunks r') (chunks r' @ nonempty_chunks ds)"
    using Cons.IH[of r' p'] Cons.prems(1) m c by (simp add: length_lastn)
  also have "\<dots> = lastn (maxChunks r) (chunks r @ nonempty_chunks (d # ds))"
    using c m lastn_lastn_append[of "maxChunks r" "chunks r @ nonempty_chunks [d]" "nonempty_chunks ds"]
    by (simp add: nonempty_chunks_Cons nonempty_chunks_def)
  finally show ?case using step by simp
qed

text \<open>
  C1. With a positive capacity and a queue within capacity (\<open>setupRecorder\<close> empties
  it), after any sequence of flush boundaries the queue is within capacity and holds the
  last \<open>maxChunks\<close> of the chunks it was offered, in arrival order: only chunks at the
  head were evicted.
\<close>

theorem chunk_queue_bounded_fifo:
  "0 < maxChunks r \<Longrightarrow> length (chunks r) \<le> maxChunks r \<Longrightarrow>
   length (chunks (fst (flushes r p ds))) \<le> maxChunks r \<and>
   chunks (fst (flushes r p ds)) =
     drop (length (chunks r @ nonempty_chunks ds) - maxChunks r) (chunks r @ nonempty_chunks ds)"
  using flushes_lastn[of r p ds] length_lastn[of "maxChunks r" "chunks r @ nonempty_chunks ds"]
  by (simp add: lastn_def)

text \<open>Capacity 2 and three non-empty chunks among five flushes: the first chunk is evicted.\<close>

theorem chunk_queue_bounded_fifo_witness:
  "0 < maxChunks ((constructor :: unit Recorder)\<lparr>maxChunks := 2\<rparr>) \<and>
   length (chunks ((constructor :: unit Recorder)\<lparr>maxChunks := 2\<rparr>)) \<le> maxChunks ((constructor :: unit Recorder)\<lparr>maxChunks := 2\<rparr>) \<and>
   chunks (fst (flushes ((constructor :: unit Recorder)\<lparr>maxChunks := 2\<rparr>) \<lparr>user = (), console = []\<rparr>
       [chunk_of [1], None, chunk_of [], chunk_of [2, 2], chunk_of [3]]))
     = [\<lparr>bytes = [2, 2], btype = ''video/webm''\<rparr>, \<lparr>bytes = [3], btype = ''video/webm''\<rparr>]"
  using chunk_queue_bounded_fifo[of "(constructor :: unit Recorder)\<lparr>maxChunks := 2\<rparr>" "\<lparr>user = (), console = []\<rparr>"
       "[chunk_of [1], None, chunk_of [], chunk_of [2, 2], chunk_of [3]]"]
  by (simp add: constructor_def nonempty_chunks_def chunk_of_def blob_size_def)

subsection \<open>pause and resume\<close>

text \<open>
  C4. \<open>pause()\<close> never throws and changes nothing unless the encoder is recording, in
  which case only the encoder state becomes paused; \<open>resume()\<close> never throws and changes
  nothing unless the encoder is paused, in which case only the encoder state becomes
  recording. With no encoder (before start, after stop or cleanup) both return the
  recorder as it was.
\<close>

theorem pause_resume_guarded:
  "pause r = Inr (case mediaRecorder r of
                    None \<Rightarrow> r
                  | Some m \<Rightarrow> if state m = Recording
                              then r\<lparr>mediaRecorder := Some (m\<lparr>state := Paused\<rparr>)\<rparr> else r)
   \<and> resume r = Inr (case mediaRecorder r of
                    None \<Rightarrow> r
                  | Some m \<Rightarrow> if state m = Paused
                              then r\<lparr>mediaRecorder := Some (m\<lparr>state := Recording\<rparr>)\<rparr> else r)"
  by (simp add: pause_def resume_def mr_pause_def mr_resume_def split: option.splits)

subsection \<open>cleanup\<close>

lemma stop_tracks_append: "stop_tracks (xs @ ys) h = stop_tracks ys (stop_tracks xs h)"
  by (simp add: stop_tracks_def)

lemma stop_tracks_Cons: "stop_tracks (t # ts) h = stop_tracks ts (track_stop t h)"
  by (simp add: stop_tracks_def)

lemma stop_tracks_Nil: "stop_tracks [] h = h"
  by (simp add: stop_tracks_def)

lemma stop_slot_tracks: "stop_slot slot h = stop_tracks (case slot of None \<Rightarrow> [] | Some s \<Rightarrow> s) h"
  by (simp add: stop_slot_def stop_tracks_Nil split: option.splits)

lemma stop_tracks_ended:
  "set (ended (stop_tracks ts h)) = set (ended h) \<union> track_id ` set ts"
  by (induction ts arbitrary: h) (auto simp: stop_tracks_Nil stop_tracks_Cons track_stop_def)

lemma stop_tracks_released:
  "count_list (released (stop_tracks ts h)) x =
     count_list (released h) x + (if x \<in> track_id ` set ts \<and> x \<notin> set (ended h) then 1 else 0)"
proof (induction ts arbitrary: h)
  case Nil
  then show ?case by (simp add: stop_tracks_Nil)
next
  case (Cons t ts)
  show ?case
    unfolding stop_tracks_Cons Cons.IH
    by (auto simp: track_stop_def)
qed

lemma stop_tracks_other:
  "terminated (stop_tracks ts h) = terminated h"
  "closed_contexts (stop_tracks ts h) = closed_contexts h"
  "close_rejects (stop_tracks ts h) = close_rejects h"
  by (induction ts arbitrary: h) (auto simp: stop_tracks_Nil stop_tracks_Cons track_stop_def)

lemma stop_tracks_closed:
  "closed_contexts (stop_tracks ts h) = closed_contexts h"
  "close_rejects (stop_tracks ts h) = close_rejects h"
  by (simp_all add: stop_tracks_other)

lemma ctx_close_fields:
  "ended (ctx_close a h) = ended h" "released (ctx_close a h) = released h"
  "terminated (ctx_close a h) = terminated h"
  by (simp_all add: ctx_close_def)

lemma cleanup_sync_recorder:
  "fst (cleanup_sync r h) =
     r\<lparr>isRecording := False, mediaRecorder := None, streams := null_streams, canvasStream := None\<rparr>"
  by (simp add: cleanup_sync_def Let_def split: option.splits)

lemma cleanup_sync_host:
  "snd (cleanup_sync r h) =
     (case audioContext r of
        None \<Rightarrow> stop_tracks (held_tracks r) h
      | Some a \<Rightarrow> ctx_close a (stop_tracks (held_tracks r) h))"
  by (simp add: cleanup_sync_def Let_def held_tracks_def stream_values_def stop_slot_tracks
        stop_tracks_append[symmetric] split: option.splits)

lemma cleanup_resume_recorder:
  "fst (cleanup_resume r h) = r\<lparr>audioContext := None, worker := None, canvas := None, chunks := []\<rparr>"
  by (simp add: cleanup_resume_def Let_def)

lemma cleanup_resume_host:
  "snd (cleanup_resume r h) =
     (case worker r of None \<Rightarrow> h | Some w \<Rightarrow> h\<lparr>terminated := terminated h @ [w]\<rparr>)"
  by (simp add: cleanup_resume_def Let_def split: option.splits)

lemma cleanup_unfold:
  "cleanup r h = cleanup_resume (fst (cleanup_sync r h)) (snd (cleanup_sync r h))"
  by (simp add: cleanup_def split_beta)

lemma cleanup_recorder:
  "fst (cleanup r h) =
     r\<lparr>isRecording := False, mediaRecorder := None, streams := null_streams, canvasStream := None,
       audioContext := None, worker := None, canvas := None, chunks := []\<rparr>"
  by (simp add: cleanup_unfold cleanup_resume_recorder cleanup_sync_recorder)

lemma cleanup_host:
  "snd (cleanup r h) =
     (let h2 = stop_tracks (held_tracks r) h;
          h3 = (case audioContext r of None \<Rightarrow> h2 | Some a \<Rightarrow> ctx_close a h2)
      in case worker r of None \<Rightarrow> h3 | Some w \<Rightarrow> h3\<lparr>terminated := terminated h3 @ [w]\<rparr>)"
  by (simp add: cleanup_unfold cleanup_resume_host cleanup_sync_recorder cleanup_sync_host Let_def
        split: option.splits)

lemma cleanup_ended: "set (ended (snd (cleanup r h))) = set (ended h) \<union> track_id ` set (held_tracks r)"
  by (simp add: cleanup_host Let_def stop_tracks_ended ctx_close_fields split: option.splits)

lemma cleanup_released:
  "count_list (released (snd (cleanup r h))) x =
     count_list (released h) x + (if x \<in> track_id ` set (held_tracks r) \<and> x \<notin> set (ended h) then 1 else 0)"
  by (simp add: cleanup_host Let_def stop_tracks_released ctx_close_fields split: option.splits)

lemma cleanup_torn_down:
  "held_tracks (fst (cleanup r h)) = []" "audioContext (fst (cleanup r h)) = None"
  "worker (fst (cleanup r h)) = None"
  by (simp_all add: cleanup_recorder held_tracks_def stream_values_def null_streams_def)

lemma cleanup_again: "cleanup (fst (cleanup r h)) h' = (fst (cleanup r h), h')"
proof -
  have "fst (cleanup (fst (cleanup r h)) h') = fst (cleanup r h)"
    by (simp add: cleanup_recorder)
  moreover have "snd (cleanup (fst (cleanup r h)) h') = h'"
    by (simp add: cleanup_host[of "fst (cleanup r h)"] cleanup_torn_down stop_tracks_Nil)
  ultimately show ?thesis by (metis prod.collapse)
qed

lemma ctx_close_twice: "ctx_close a (ctx_close a h) = ctx_close a h"
  by (simp add: ctx_close_def)

lemma cleanup_sync_again:
  "cleanup_sync (fst (cleanup_sync r h)) (snd (cleanup_sync r h)) = cleanup_sync r h"
proof -
  let ?r1 = "fst (cleanup_sync r h)" and ?h1 = "snd (cleanup_sync r h)"
  have ht: "held_tracks ?r1 = []"
    by (simp add: cleanup_sync_recorder held_tracks_def stream_values_def null_streams_def)
  have ac: "audioContext ?r1 = audioContext r"
    by (simp add: cleanup_sync_recorder)
  have "fst (cleanup_sync ?r1 ?h1) = ?r1"
    by (simp add: cleanup_sync_recorder)
  moreover have "snd (cleanup_sync ?r1 ?h1) = ?h1"
    unfolding cleanup_sync_host[of ?r1] ht ac stop_tracks_Nil
    by (simp add: cleanup_sync_host[of r] ctx_close_twice split: option.splits)
  ultimately show ?thesis by (metis prod.collapse)
qed

lemma cleanup_resume_again:
  "cleanup_resume (fst (cleanup_resume r h)) (snd (cleanup_resume r h)) = cleanup_resume r h"
proof -
  have "fst (cleanup_resume (fst (cleanup_resume r h)) (snd (cleanup_resume r h))) = fst (cleanup_resume r h)"
    by (simp add: cleanup_resume_recorder)
  moreover have "worker (fst (cleanup_resume r h)) = None"
    by (simp add: cleanup_resume_recorder)
  then have "snd (cleanup_resume (fst (cleanup_resume r h)) (snd (cleanup_resume r h))) = snd (cleanup_resume r h)"
    by (simp add: cleanup_resume_host[of "fst (cleanup_resume r h)"])
  ultimately show ?thesis by (metis prod.collapse)
qed

lemma cleanup_overlapped_eq: "cleanup_overlapped r h = cleanup r h"
proof -
  obtain r1 h1 where s1: "cleanup_sync r h = (r1, h1)" by fastforce
  have s2: "cleanup_sync r1 h1 = (r1, h1)"
    using cleanup_sync_again[of r h] s1 by simp
  obtain r3 h3 where s3: "cleanup_resume r1 h1 = (r3, h3)" by fastforce
  have s4: "cleanup_resume r3 h3 = (r3, h3)"
    using cleanup_resume_again[of r1 h1] s3 by simp
  show ?thesis by (simp add: cleanup_overlapped_def cleanup_def s1 s2 s3 s4)
qed

text \<open>
  C9. A second \<open>cleanup()\<close> right after the first changes neither recorder nor host, and
  a second one that starts while the first is suspended at its \<open>await\<close> leads to the
  same final state. After the first, all stream slots and the canvas stream are null,
  the queue is empty, there is no encoder and no worker, and every track the recorder
  held has ended. Over both invocations together each track that was held and still live
  is released exactly once (stopping a track again has no effect), and no other track is
  released.
\<close>

theorem cleanup_idempotent:
  "cleanup (fst (cleanup r h)) (snd (cleanup r h)) = cleanup r h
   \<and> cleanup_overlapped r h = cleanup r h
   \<and> streams (fst (cleanup r h)) = null_streams
   \<and> canvasStream (fst (cleanup r h)) = None
   \<and> chunks (fst (cleanup r h)) = []
   \<and> mediaRecorder (fst (cleanup r h)) = None
   \<and> worker (fst (cleanup r h)) = None
   \<and> held_tracks (fst (cleanup r h)) = []
   \<and> track_id ` set (held_tracks r) \<subseteq> set (ended (snd (cleanup r h)))
   \<and> count_list (released (snd (cleanup (fst (cleanup r h)) (snd (cleanup r h))))) x =
       count_list (released h) x
         + (if x \<in> track_id ` set (held_tracks r) \<and> x \<notin> set (ended h) then 1 else 0)"
  by (simp add: cleanup_again cleanup_overlapped_eq cleanup_ended cleanup_released cleanup_torn_down)
     (simp add: cleanup_recorder)

subsection \<open>stop\<close>


lemma ondataavailable_mediaRecorder:
  "mediaRecorder (fst (ondataavailable r d p)) = mediaRecorder r"
  by (auto simp: ondataavailable_def Let_def split: option.splits)






text \<open>
  A second \<open>stop()\<close> in that window finds the encoder inactive: it resolves at once,
  without the final flush, and cleans up; at the stop event both listeners find no
  encoder, so the first promise rejects.
\<close>

lemma second_stop_example:
  "snd (snd stop_again) = Some (Inr (Some two_bytes))
   \<and> snd (snd (snd (encoder_stopped 2 (fst stop_again) (chunk_of [3]) quiet_page (fst (snd stop_again)))))
       = [Inl (Error ''TypeError''), Inl (Error ''TypeError'')]"
proof -
  have sc: "stop_called = ((recording_session [two_bytes])\<lparr>mediaRecorder := Some (mr_stop the_recorder)\<rparr>,
                           idle_host, None)"
    by (simp add: stop_called_def stop_def recording_session_def the_recorder_def)
  let ?r1 = "(recording_session [two_bytes])\<lparr>mediaRecorder := Some (mr_stop the_recorder)\<rparr>"
  obtain r' h' where cl: "cleanup ?r1 idle_host = (r', h')" by fastforce
  have r': "r' = fst (cleanup ?r1 idle_host)" using cl by simp
  have f: "mediaRecorder ?r1 = Some (mr_stop the_recorder)" "chunks ?r1 = [two_bytes]"
    by (simp_all add: recording_session_def)
  have mt: "mimeType (mr_stop the_recorder) = ''video/webm''" "state (mr_stop the_recorder) = Inactive"
    by (simp_all add: mr_stop_def the_recorder_def)
  have nb: "new_Blob [two_bytes] ''video/webm'' = two_bytes"
    by (simp add: new_Blob_def two_bytes_def)
  have hs: "handleStop ?r1 idle_host = (r', h', Inr (Some two_bytes))"
    by (simp add: handleStop_def f mt cl nb Let_def)
  have sa: "stop_again = (r', h', Some (Inr (Some two_bytes)))"
    by (simp add: stop_again_def sc stop_def f mt hs)
  have mr: "mediaRecorder r' = None" by (simp add: r' cleanup_recorder)
  obtain r2 p2 where od: "ondataavailable r' (chunk_of [3]) quiet_page = (r2, p2)" by fastforce
  have m2: "mediaRecorder r2 = None"
    using ondataavailable_mediaRecorder[of r' "chunk_of [3]" quiet_page] od mr by simp
  obtain r3 h3 where c3: "cleanup r2 h' = (r3, h3)" by fastforce
  have m3: "mediaRecorder r3 = None" using c3 cleanup_recorder[of r2 h'] by simp
  obtain r4 h4 where c4: "cleanup r3 h3 = (r4, h4)" by fastforce
  have "stop_listeners (Suc (Suc 0)) r2 h' = (r4, h4, [Inl (Error ''TypeError''), Inl (Error ''TypeError'')])"
    by (simp add: handleStop_def m2 m3 c3 c4)
  then have "snd (snd (snd (encoder_stopped 2 r' (chunk_of [3]) quiet_page h')))
       = [Inl (Error ''TypeError''), Inl (Error ''TypeError'')]"
    by (simp add: encoder_stopped_def od numeral_2_eq_2)
  then show ?thesis by (simp add: sa)
qed



subsection \<open>start: what stream setup preserves\<close>

lemma same_sources_refl: "same_sources r r"
  by (simp add: same_sources_def)

lemma same_sources_trans: "same_sources a b \<Longrightarrow> same_sources b c \<Longrightarrow> same_sources a c"
  by (simp add: same_sources_def)

lemma src_combineAudioTracks:
  "combineAudioTracks cfg (r, h) = ((r', h'), out) \<Longrightarrow> same_sources r r'"
  by (auto simp: combineAudioTracks_def single_track_fallback_def Let_def same_sources_def
           split: sum.splits option.splits if_splits)

lemma src_canvas:
  "createCombinedStreamCanvas cfg (r, h) = ((r', h'), out) \<Longrightarrow> same_sources r r'"
  by (auto simp: createCombinedStreamCanvas_def Let_def same_sources_def
           split: sum.splits if_splits dest!: src_combineAudioTracks)

lemma src_setup_failed: "same_sources (fst s) (wc_rec (setup_failed cfg s))"
proof -
  obtain r h r' h' out where "s = (r, h)" "createCombinedStreamCanvas cfg (r, h) = ((r', h'), out)"
    by (metis prod.collapse)
  then show ?thesis using src_canvas[of cfg r h r' h' out] by (simp add: setup_failed_def)
qed

lemma src_onError: "same_sources (wc_rec st) (wc_rec (onError cfg st))"
proof -
  obtain r0 h0 where s0: "(case worker (wc_rec st) of None \<Rightarrow> (wc_rec st, wc_host st)
           | Some w \<Rightarrow> ((wc_rec st)\<lparr>worker := None\<rparr>, (wc_host st)\<lparr>terminated := terminated (wc_host st) @ [w]\<rparr>)) = (r0, h0)"
    by fastforce
  then have a: "same_sources (wc_rec st) r0"
    by (auto simp: same_sources_def split: option.splits)
  obtain r' h' out where cv: "createCombinedStreamCanvas cfg (r0, h0) = ((r', h'), out)"
    by (metis prod.collapse)
  have "wc_rec (onError cfg st) = r'"
    using s0 cv by (simp add: onError_def fallbackToCanvas_def)
  then show ?thesis using a src_canvas[OF cv] same_sources_trans by blast
qed

lemma src_on_ready: "same_sources (wc_rec st) (wc_rec (on_ready cfg st))"
  by (auto simp: on_ready_def combineAudioWithVideoTrack_def Let_def same_sources_def
           split: prod.splits sum.splits if_splits)

lemma src_wc_init: "same_sources (fst s) (wc_rec (wc_init cfg s))"
proof (cases s)
  case (Pair r h)
  have a: "same_sources r (wc_rec (setup_failed cfg (r, h)))"
    using src_setup_failed[of "(r, h)" cfg] by simp
  have b: "same_sources r (wc_rec (setup_failed cfg (r\<lparr>worker := Some w\<rparr>, h)))" for w
    using src_setup_failed[of "(r\<lparr>worker := Some w\<rparr>, h)" cfg] by (simp add: same_sources_def)
  show ?thesis using Pair a b
    by (auto simp: wc_init_def Let_def split: sum.splits option.splits)
       (simp add: same_sources_def)
qed

lemma src_wc_step: "same_sources (wc_rec st) (wc_rec (wc_step cfg ev st))"
proof (cases ev)
  case TimerFired
  then show ?thesis using src_onError[of "st\<lparr>wc_timer := None\<rparr>" cfg]
    by (auto simp: wc_step_def same_sources_refl split: option.splits)
qed (auto simp: wc_step_def same_sources_refl src_on_ready src_onError)

lemma src_wc_await: "same_sources (wc_rec st) (fst (fst (wc_await cfg evs st)))"
proof (induction evs arbitrary: st)
  case Nil
  then show ?case by (simp add: awaited_def same_sources_refl)
next
  case (Cons ev evs)
  then show ?case
    using same_sources_trans[OF src_wc_step[of st cfg ev] Cons.IH[of "wc_step cfg ev st"]]
    by (simp add: awaited_def same_sources_refl)
qed

lemma src_createCombinedStream: "same_sources (fst s) (fst (fst (createCombinedStream cfg s)))"
proof (cases "webCodecs (capabilities (fst s)) \<and> offscreenCanvas (capabilities (fst s))")
  case True
  then show ?thesis
    using same_sources_trans[OF src_wc_init[of s cfg] src_wc_await[of "wc_init cfg s" cfg "worker_events (snd s)"]]
    by (simp add: createCombinedStream_def createCombinedStreamWebCodecs_def)
next
  case False
  then have e: "createCombinedStream cfg s = createCombinedStreamCanvas cfg s"
    by (auto simp: createCombinedStream_def)
  obtain r h r' h' out where "s = (r, h)" "createCombinedStreamCanvas cfg (r, h) = ((r', h'), out)"
    by (metis prod.collapse)
  then have "same_sources (fst s) (fst (fst (createCombinedStreamCanvas cfg s)))"
    using src_canvas[of cfg r h r' h' out] by simp
  then show ?thesis by (simp add: e)
qed

lemma held_tracks_sources: "set (source_tracks r) \<subseteq> set (held_tracks r)"
  by (auto simp: source_tracks_def held_tracks_def stream_values_def split: option.splits)

lemma same_sources_tracks: "same_sources r r' \<Longrightarrow> source_tracks r' = source_tracks r"
  by (simp add: same_sources_def source_tracks_def)

lemma acquire_screen_host: "\<exists>r1 o1. acquire_screen cfg (r, h) = ((r1, h), o1)"
  by (cases "getDisplayMedia h") (simp_all add: acquire_screen_def Let_def)

lemma acquire_webcam_host: "\<exists>r1 o1. acquire_webcam cfg (r, h) = ((r1, h), o1)"
  by (cases "getUserMedia h") (simp_all add: acquire_webcam_def)

lemma acquire_screen_Returned:
  assumes "acquire_screen cfg (r, h) = ((r1, h1), Returned)"
  shows "if mode cfg = ''screen'' \<or> mode cfg = ''combined''
         then \<exists>str. getDisplayMedia h = Inr str \<and> getVideoTracks str \<noteq> [] \<and> screen (streams r1) = Some str
         else r1 = r"
proof (cases "mode cfg = ''screen'' \<or> mode cfg = ''combined''")
  case True
  show ?thesis
  proof (cases "getDisplayMedia h")
    case (Inl e)
    then show ?thesis using assms True by (simp add: acquire_screen_def)
  next
    case (Inr str)
    then show ?thesis using assms True
      by (cases "getVideoTracks str = []") (auto simp: acquire_screen_def Let_def)
  qed
next
  case False
  then show ?thesis using assms by (auto simp: acquire_screen_def)
qed

lemma acquire_screen_Threw:
  assumes "acquire_screen cfg (r, h) = ((r1, h1), Threw e)"
  shows "(mode cfg = ''screen'' \<or> mode cfg = ''combined'')
         \<and> (case getDisplayMedia h of Inl e' \<Rightarrow> True | Inr str \<Rightarrow> screen (streams r1) = Some str)"
proof (cases "mode cfg = ''screen'' \<or> mode cfg = ''combined''")
  case True
  show ?thesis
  proof (cases "getDisplayMedia h")
    case (Inl e)
    then show ?thesis using assms True by (simp add: acquire_screen_def)
  next
    case (Inr str)
    then show ?thesis using assms True
      by (cases "getVideoTracks str = []") (auto simp: acquire_screen_def Let_def)
  qed
next
  case False
  then show ?thesis using assms by (auto simp: acquire_screen_def)
qed

lemma acquire_webcam_result:
  assumes "acquire_webcam cfg (r, h) = ((r1, h1), out)"
  shows "screen (streams r1) = screen (streams r)
       \<and> (if mode cfg = ''webcam'' \<or> mode cfg = ''combined''
          then (case getUserMedia h of Inl e \<Rightarrow> True | Inr str \<Rightarrow> webcam (streams r1) = Some str)
          else True)"
proof (cases "mode cfg = ''webcam'' \<or> mode cfg = ''combined''")
  case True
  then show ?thesis using assms
    by (cases "getUserMedia h") (auto simp: acquire_webcam_def)
next
  case False
  then show ?thesis using assms by (auto simp: acquire_webcam_def)
qed

lemma acquired_after_both:
  assumes a1: "acquire_screen cfg (r, h) = ((r1, h), Returned)"
      and a2: "acquire_webcam cfg (r1, h) = ((r2, h), o2)"
  shows "set (acquired_tracks cfg h) \<subseteq> set (source_tracks r2)"
proof -
  note s1 = acquire_screen_Returned[OF a1] and s2 = acquire_webcam_result[OF a2]
  show ?thesis
  proof (cases "mode cfg = ''screen'' \<or> mode cfg = ''combined''")
    case True
    then obtain str where str: "getDisplayMedia h = Inr str" "getVideoTracks str \<noteq> []"
        "screen (streams r2) = Some str"
      using s1 s2 by auto
    show ?thesis
    proof (cases "mode cfg = ''webcam'' \<or> mode cfg = ''combined''")
      case w: True
      then show ?thesis using True str s2
        by (cases "getUserMedia h") (auto simp: acquired_tracks_def source_tracks_def Let_def)
    next
      case w: False
      then show ?thesis using True str by (auto simp: acquired_tracks_def source_tracks_def Let_def)
    qed
  next
    case False
    show ?thesis
    proof (cases "mode cfg = ''webcam'' \<or> mode cfg = ''combined''")
      case w: True
      then show ?thesis using False s2
        by (cases "getUserMedia h") (auto simp: acquired_tracks_def source_tracks_def Let_def)
    next
      case w: False
      then show ?thesis using False by (auto simp: acquired_tracks_def source_tracks_def Let_def)
    qed
  qed
qed

lemma acquired_after_screen_threw:
  assumes a1: "acquire_screen cfg (r, h) = ((r1, h), Threw e)"
  shows "set (acquired_tracks cfg h) \<subseteq> set (source_tracks r1)"
proof -
  note s1 = acquire_screen_Threw[OF a1]
  show ?thesis
  proof (cases "getDisplayMedia h")
    case (Inl e')
    then show ?thesis using s1 by (auto simp: acquired_tracks_def source_tracks_def Let_def)
  next
    case (Inr str)
    then have "getVideoTracks str = []" using a1 s1
      by (auto simp: acquire_screen_def Let_def split: if_splits)
    then show ?thesis using s1 Inr by (auto simp: acquired_tracks_def source_tracks_def Let_def)
  qed
qed

lemma acquire_screen_not_Never: "snd (acquire_screen cfg (r, h)) \<noteq> Never"
  by (cases "getDisplayMedia h") (auto simp: acquire_screen_def Let_def)

lemma acquired_held:
  "set (acquired_tracks cfg (snd s)) \<subseteq> set (held_tracks (fst (fst (setupStreams cfg s))))"
proof -
  obtain r h where s: "s = (r, h)" by (cases s)
  obtain r1 o1 where a1: "acquire_screen cfg (r, h) = ((r1, h), o1)"
    using acquire_screen_host by blast
  have "\<exists>rx. fst (fst (setupStreams cfg s)) = rx \<and> set (acquired_tracks cfg h) \<subseteq> set (source_tracks rx)"
  proof (cases o1)
    case Returned
    obtain r2 o2 where a2: "acquire_webcam cfg (r1, h) = ((r2, h), o2)"
      using acquire_webcam_host by blast
    have acq: "set (acquired_tracks cfg h) \<subseteq> set (source_tracks r2)"
      using acquired_after_both a1 a2 Returned by blast
    show ?thesis
    proof (cases o2)
      case r2: Returned
      obtain r3 h3 o3 where s3: "(if mode cfg = ''combined'' then createCombinedStream cfg (r2, h)
                                   else ((r2, h), Returned)) = ((r3, h3), o3)"
        by (metis prod.collapse)
      have ss: "fst (fst (setupStreams cfg s)) = r3"
        using s a1 a2 Returned r2 s3
        by (cases o3) (simp_all add: setupStreams_def rethrow_def and_then_def)
      have "same_sources r2 r3"
        using src_createCombinedStream[of "(r2, h)" cfg] s3
        by (cases "mode cfg = ''combined''") (simp_all add: same_sources_refl)
      then show ?thesis using acq ss by (simp add: same_sources_tracks)
    next
      case (Threw e)
      then have "fst (fst (setupStreams cfg s)) = r2"
        using s a1 a2 Returned by (simp add: setupStreams_def rethrow_def and_then_def)
      then show ?thesis using acq by simp
    next
      case Never
      then have "fst (fst (setupStreams cfg s)) = r2"
        using s a1 a2 Returned by (simp add: setupStreams_def rethrow_def and_then_def)
      then show ?thesis using acq by simp
    qed
  next
    case (Threw e)
    then have ss: "fst (fst (setupStreams cfg s)) = r1"
      using s a1 by (simp add: setupStreams_def rethrow_def and_then_def)
    have "set (acquired_tracks cfg h) \<subseteq> set (source_tracks r1)"
      using acquired_after_screen_threw a1 Threw by blast
    then show ?thesis using ss by simp
  next
    case Never
    then show ?thesis using a1 acquire_screen_not_Never[of cfg r h] by simp
  qed
  then show ?thesis using held_tracks_sources s by (metis snd_conv subset_trans)
qed

subsection \<open>start: codec negotiation and rollback\<close>

lemma select_mime_dropWhile:
  "select_mime supported ms = (case dropWhile (\<lambda>m. \<not> supported m) ms of [] \<Rightarrow> None | m # rest \<Rightarrow> Some m)"
  by (induction ms) simp_all

lemma select_mime_last:
  "(\<forall>m\<in>set pre. \<not> supported m) \<Longrightarrow> supported z \<Longrightarrow> select_mime supported (pre @ [z]) = Some z"
  by (induction pre) simp_all

lemma select_mime_None: "select_mime supported ms = None \<longleftrightarrow> (\<forall>m\<in>set ms. \<not> supported m)"
  by (induction ms) simp_all

text \<open>The host's answer on supported types is not changed by stream setup.\<close>

lemma sup_acquire_screen: "isTypeSupported (snd (fst (acquire_screen cfg s))) = isTypeSupported (snd s)"
  by (cases s) (simp add: acquire_screen_def Let_def split: sum.splits)

lemma sup_acquire_webcam: "isTypeSupported (snd (fst (acquire_webcam cfg s))) = isTypeSupported (snd s)"
  by (cases s) (simp add: acquire_webcam_def split: sum.splits)

lemma sup_single: "isTypeSupported (snd (fst (single_track_fallback ts s))) = isTypeSupported (snd s)"
  by (cases s) (simp add: single_track_fallback_def split: option.splits)

lemma sup_combineAudioTracks: "isTypeSupported (snd (fst (combineAudioTracks cfg s))) = isTypeSupported (snd s)"
  by (cases s) (simp add: combineAudioTracks_def Let_def sup_single split: sum.splits option.splits)

lemma sup_canvas: "isTypeSupported (snd (fst (createCombinedStreamCanvas cfg s))) = isTypeSupported (snd s)"
  by (cases s) (simp add: createCombinedStreamCanvas_def Let_def sup_combineAudioTracks split: sum.splits)

lemma sup_fallback: "isTypeSupported (snd (fst (fallbackToCanvas cfg s))) = isTypeSupported (snd s)"
  by (cases s) (simp add: fallbackToCanvas_def sup_canvas split: option.splits)

lemma sup_mix: "isTypeSupported (snd (fst (combineAudioWithVideoTrack t cfg s))) = isTypeSupported (snd s)"
  by (cases s) (simp add: combineAudioWithVideoTrack_def Let_def split: sum.splits)

lemma sup_onError: "isTypeSupported (wc_host (onError cfg st)) = isTypeSupported (wc_host st)"
  using sup_fallback[of cfg "(wc_rec st, wc_host st)"]
  by (auto simp: onError_def split: prod.splits)

lemma sup_on_ready: "isTypeSupported (wc_host (on_ready cfg st)) = isTypeSupported (wc_host st)"
  using sup_mix[of "generator_track (wc_host st)" cfg "(wc_rec st, wc_host st)"]
  by (auto simp: on_ready_def split: prod.splits)

lemma sup_setup_failed: "isTypeSupported (wc_host (setup_failed cfg s)) = isTypeSupported (snd s)"
  using sup_canvas[of cfg s] by (auto simp: setup_failed_def split: prod.splits)

lemma sup_wc_init: "isTypeSupported (wc_host (wc_init cfg s)) = isTypeSupported (snd s)"
  by (cases s) (simp add: wc_init_def Let_def sup_setup_failed split: sum.splits option.splits)

lemma sup_wc_step: "isTypeSupported (wc_host (wc_step cfg ev st)) = isTypeSupported (wc_host st)"
  by (cases ev) (simp_all add: wc_step_def sup_onError sup_on_ready split: option.splits)

lemma sup_wc_await: "isTypeSupported (snd (fst (wc_await cfg evs st))) = isTypeSupported (wc_host st)"
  by (induction evs arbitrary: st) (simp_all add: awaited_def sup_wc_step)

lemma sup_createCombinedStream: "isTypeSupported (snd (fst (createCombinedStream cfg s))) = isTypeSupported (snd s)"
  by (simp add: createCombinedStream_def createCombinedStreamWebCodecs_def sup_wc_await sup_wc_init sup_canvas)

lemma sup_and_then:
  assumes "\<And>s. isTypeSupported (snd (fst (a s))) = isTypeSupported (snd s)"
      and "\<And>s. isTypeSupported (snd (fst (b s))) = isTypeSupported (snd s)"
  shows "isTypeSupported (snd (fst (and_then a b s))) = isTypeSupported (snd s)"
proof (cases "a s")
  case (Pair s' out)
  then show ?thesis
    using assms(1)[of s] assms(2)[of s']
    by (cases out) (simp_all add: and_then_def)
qed

lemma sup_rethrow:
  assumes "\<And>s. isTypeSupported (snd (fst (a s))) = isTypeSupported (snd s)"
  shows "isTypeSupported (snd (fst (rethrow pre a s))) = isTypeSupported (snd s)"
proof (cases "a s")
  case (Pair s' out)
  then show ?thesis using assms[of s] by (cases out) (simp_all add: rethrow_def)
qed

lemma sup_setupStreams: "isTypeSupported (snd (fst (setupStreams cfg s))) = isTypeSupported (snd s)"
  unfolding setupStreams_def
  by (intro sup_rethrow sup_and_then sup_acquire_screen sup_acquire_webcam)
     (simp add: sup_createCombinedStream)

lemma setupRecorder_unsupported:
  assumes "select_mime (isTypeSupported (snd s)) mimeTypes = None"
  shows "\<exists>e. setupRecorder cfg s = (s, Threw e)"
  using assms by (cases s) (simp add: setupRecorder_def split: sum.splits option.splits)

lemma setupRecorder_unsupported_message:
  assumes "select_mime (isTypeSupported (snd s)) mimeTypes = None"
      and "select_stream cfg (fst s) = Inr (Some str)"
  shows "setupRecorder cfg s = (s, Threw (Error ''No supported video format found''))"
  using assms by (cases s) (simp add: setupRecorder_def)

lemma start_unsupported:
  assumes "select_mime (isTypeSupported (snd s)) mimeTypes = None"
  shows "(snd (setupStreams cfg s) = Never \<and> start cfg s = (fst (setupStreams cfg s), Never))
       \<or> (\<exists>e. start cfg s = (cleanup (fst (fst (setupStreams cfg s))) (snd (fst (setupStreams cfg s))),
                            Threw (Error (''Failed to start recording: '' @ message e)))
              \<and> (snd (setupStreams cfg s) = Returned \<longrightarrow>
                    setupRecorder cfg (fst (setupStreams cfg s)) = (fst (setupStreams cfg s), Threw e)))"
proof -
  obtain r1 h1 o1 where ss: "setupStreams cfg s = ((r1, h1), o1)" by (metis prod.collapse)
  have "isTypeSupported h1 = isTypeSupported (snd s)"
    using sup_setupStreams[of cfg s] ss by simp
  then obtain e where sr: "setupRecorder cfg (r1, h1) = ((r1, h1), Threw e)"
    using setupRecorder_unsupported[of "(r1, h1)" cfg] assms by auto
  show ?thesis
  proof (cases o1)
    case Returned
    then show ?thesis using ss sr by (simp add: start_def and_then_def)
  next
    case (Threw e')
    have "start cfg s = (cleanup r1 h1, Threw (Error (''Failed to start recording: '' @ message e')))"
      using ss Threw by (simp add: start_def and_then_def)
    then show ?thesis using ss Threw by auto
  next
    case Never
    then show ?thesis using ss by (simp add: start_def and_then_def)
  qed
qed


lemma mimeTypes_nonempty: "m \<in> set mimeTypes \<Longrightarrow> m \<noteq> []"
  by (auto simp: mimeTypes_def)

lemma setupRecorder_first_supported:
  assumes "select_stream cfg r = Inr (Some str)"
      and "dropWhile (\<lambda>m. \<not> isTypeSupported h m) mimeTypes = mt # rest"
  shows "setupRecorder cfg (r, h)
           = ((r\<lparr>mediaRecorder := Some \<lparr>state = Inactive, mimeType = mt, mr_stream = str,
                                          videoBitsPerSecond = bitrate_video (bitrate cfg),
                                          audioBitsPerSecond = bitrate_audio (bitrate cfg)\<rparr>,
                 chunks := []\<rparr>, h), Returned)"
proof -
  have sel: "select_mime (isTypeSupported h) mimeTypes = Some mt"
    using assms(2) by (simp add: select_mime_dropWhile)
  have "mt \<in> set (dropWhile (\<lambda>m. \<not> isTypeSupported h m) mimeTypes)"
    using assms(2) by simp
  then have "mt \<in> set mimeTypes" by (rule set_dropWhileD)
  then have "mt \<noteq> []" by (rule mimeTypes_nonempty)
  then show ?thesis using assms(1) sel by (simp add: setupRecorder_def)
qed

lemma only_last_supported:
  assumes "\<forall>m\<in>set (butlast mimeTypes). \<not> isTypeSupported h m"
      and "isTypeSupported h (last mimeTypes)"
  shows "dropWhile (\<lambda>m. \<not> isTypeSupported h m) mimeTypes = [''video/webm'']"
  using assms by (simp add: mimeTypes_def)

lemma start_first_supported:
  assumes "snd (setupStreams cfg s) = Returned"
      and "select_stream cfg (fst (fst (setupStreams cfg s))) = Inr (Some str)"
      and "dropWhile (\<lambda>m. \<not> isTypeSupported (snd s) m) mimeTypes = mt # rest"
  shows "start cfg s
           = (((fst (fst (setupStreams cfg s)))
                 \<lparr>mediaRecorder := Some \<lparr>state = Recording, mimeType = mt, mr_stream = str,
                                          videoBitsPerSecond = bitrate_video (bitrate cfg),
                                          audioBitsPerSecond = bitrate_audio (bitrate cfg)\<rparr>,
                  chunks := [], isRecording := True\<rparr>,
               snd (fst (setupStreams cfg s))), Returned)"
proof -
  obtain r1 h1 where ss: "setupStreams cfg s = ((r1, h1), Returned)"
    using assms(1) by (metis prod.collapse)
  have "isTypeSupported h1 = isTypeSupported (snd s)"
    using sup_setupStreams[of cfg s] ss by simp
  then have dw: "dropWhile (\<lambda>m. \<not> isTypeSupported h1 m) mimeTypes = mt # rest"
    using assms(3) by simp
  have st: "select_stream cfg r1 = Inr (Some str)" using assms(2) ss by simp
  let ?m = "\<lparr>state = Inactive, mimeType = mt, mr_stream = str,
              videoBitsPerSecond = bitrate_video (bitrate cfg),
              audioBitsPerSecond = bitrate_audio (bitrate cfg)\<rparr>"
  have sr: "setupRecorder cfg (r1, h1) = ((r1\<lparr>mediaRecorder := Some ?m, chunks := []\<rparr>, h1), Returned)"
    using setupRecorder_first_supported[OF st dw] .
  have rs: "recorder_start (r1\<lparr>mediaRecorder := Some ?m, chunks := []\<rparr>, h1)
       = ((r1\<lparr>mediaRecorder := Some (?m\<lparr>state := Recording\<rparr>), chunks := [],
               isRecording := True\<rparr>, h1), Returned)"
    by (simp add: recorder_start_def mr_start_def)
  have "start cfg s = ((r1\<lparr>mediaRecorder := Some (?m\<lparr>state := Recording\<rparr>), chunks := [],
               isRecording := True\<rparr>, h1), Returned)"
    by (simp only: start_def and_then_def ss sr rs prod.case outcome.case)
  then show ?thesis using ss by simp
qed

text \<open>
  C5. Negotiation skips the unsupported prefix of the preference list and selects the
  entry after it, so an entry supported only in the last position is selected. When the
  host supports none of the recorder's types, \<open>start()\<close> never succeeds; if stream setup
  went through and a stream exists for the mode, it fails with the wrapped message
  \<open>No supported video format found\<close>; and whenever it fails, the state is the cleaned-up
  one: no track is held, there is no encoder and no worker, and every track that was held
  or that the host had handed out during setup has ended. When some type is supported
  and a stream exists for the mode, \<open>setupRecorder\<close> builds the encoder with the first
  supported entry of the recorder's preference list (its last entry when only that one
  is supported), and \<open>start()\<close> returns with that encoder recording.
\<close>

theorem codec_negotiation_and_rollback:
  "select_mime supported ms
     = (case dropWhile (\<lambda>m. \<not> supported m) ms of [] \<Rightarrow> None | m # rest \<Rightarrow> Some m)
   \<and> ((\<forall>m\<in>set pre. \<not> supported m) \<and> supported z \<longrightarrow> select_mime supported (pre @ [z]) = Some z)
   \<and> ((\<forall>m\<in>set mimeTypes. \<not> isTypeSupported (snd s) m) \<longrightarrow>
        snd (start cfg s) \<noteq> Returned
      \<and> (snd (setupStreams cfg s) = Returned
           \<and> select_stream cfg (fst (fst (setupStreams cfg s))) = Inr (Some str) \<longrightarrow>
         snd (start cfg s) = Threw (Error ''Failed to start recording: No supported video format found''))
      \<and> (snd (start cfg s) \<noteq> Never \<longrightarrow>
           fst (start cfg s) = cleanup (fst (fst (setupStreams cfg s))) (snd (fst (setupStreams cfg s)))
         \<and> held_tracks (fst (fst (start cfg s))) = []
         \<and> mediaRecorder (fst (fst (start cfg s))) = None
         \<and> worker (fst (fst (start cfg s))) = None
         \<and> track_id ` set (held_tracks (fst (fst (setupStreams cfg s))))
              \<subseteq> set (ended (snd (fst (start cfg s))))
         \<and> track_id ` set (acquired_tracks cfg (snd s))
              \<subseteq> set (ended (snd (fst (start cfg s))))))
   \<and> (select_stream cfg r = Inr (Some str)
        \<and> dropWhile (\<lambda>m. \<not> isTypeSupported h m) mimeTypes = mt # rest \<longrightarrow>
      setupRecorder cfg (r, h)
        = ((r\<lparr>mediaRecorder := Some \<lparr>state = Inactive, mimeType = mt, mr_stream = str,
                                       videoBitsPerSecond = bitrate_video (bitrate cfg),
                                       audioBitsPerSecond = bitrate_audio (bitrate cfg)\<rparr>,
              chunks := []\<rparr>, h), Returned))
   \<and> (select_stream cfg r = Inr (Some str)
        \<and> (\<forall>m\<in>set (butlast mimeTypes). \<not> isTypeSupported h m)
        \<and> isTypeSupported h (last mimeTypes) \<longrightarrow>
      map_option mimeType (mediaRecorder (fst (fst (setupRecorder cfg (r, h))))) = Some (last mimeTypes))
   \<and> (snd (setupStreams cfg s) = Returned
        \<and> select_stream cfg (fst (fst (setupStreams cfg s))) = Inr (Some str)
        \<and> dropWhile (\<lambda>m. \<not> isTypeSupported (snd s) m) mimeTypes = mt # rest \<longrightarrow>
      start cfg s
        = (((fst (fst (setupStreams cfg s)))
              \<lparr>mediaRecorder := Some \<lparr>state = Recording, mimeType = mt, mr_stream = str,
                                       videoBitsPerSecond = bitrate_video (bitrate cfg),
                                       audioBitsPerSecond = bitrate_audio (bitrate cfg)\<rparr>,
               chunks := [], isRecording := True\<rparr>,
            snd (fst (setupStreams cfg s))), Returned))"
proof (intro conjI impI)
  show "select_mime supported ms
     = (case dropWhile (\<lambda>m. \<not> supported m) ms of [] \<Rightarrow> None | m # rest \<Rightarrow> Some m)"
    by (rule select_mime_dropWhile)
next
  assume "(\<forall>m\<in>set pre. \<not> supported m) \<and> supported z"
  then show "select_mime supported (pre @ [z]) = Some z" by (simp add: select_mime_last)
next
  assume "\<forall>m\<in>set mimeTypes. \<not> isTypeSupported (snd s) m"
  then have none: "select_mime (isTypeSupported (snd s)) mimeTypes = None"
    by (simp add: select_mime_None)
  note su = start_unsupported[OF none, of cfg]
  show "snd (start cfg s) \<noteq> Returned" using su by auto
  {
    assume ok: "snd (setupStreams cfg s) = Returned
           \<and> select_stream cfg (fst (fst (setupStreams cfg s))) = Inr (Some str)"
    have "select_mime (isTypeSupported (snd (fst (setupStreams cfg s)))) mimeTypes = None"
      using none sup_setupStreams[of cfg s] by simp
    then have "setupRecorder cfg (fst (setupStreams cfg s))
                 = (fst (setupStreams cfg s), Threw (Error ''No supported video format found''))"
      using ok setupRecorder_unsupported_message by blast
    then show "snd (start cfg s) = Threw (Error ''Failed to start recording: No supported video format found'')"
      using su ok by auto
  }
  {
    assume nn: "snd (start cfg s) \<noteq> Never"
    then show c: "fst (start cfg s) = cleanup (fst (fst (setupStreams cfg s))) (snd (fst (setupStreams cfg s)))"
      using su by auto
    show "held_tracks (fst (fst (start cfg s))) = []"
      unfolding c by (simp add: cleanup_recorder held_tracks_def stream_values_def null_streams_def)
    show "mediaRecorder (fst (fst (start cfg s))) = None"
      unfolding c by (simp add: cleanup_recorder)
    show "worker (fst (fst (start cfg s))) = None"
      unfolding c by (simp add: cleanup_recorder)
    show h: "track_id ` set (held_tracks (fst (fst (setupStreams cfg s))))
              \<subseteq> set (ended (snd (fst (start cfg s))))"
      unfolding c by (simp add: cleanup_ended)
    show "track_id ` set (acquired_tracks cfg (snd s))
              \<subseteq> set (ended (snd (fst (start cfg s))))"
      using h acquired_held[of cfg s] by blast
  }
next
  assume "select_stream cfg r = Inr (Some str)
        \<and> dropWhile (\<lambda>m. \<not> isTypeSupported h m) mimeTypes = mt # rest"
  then show "setupRecorder cfg (r, h)
        = ((r\<lparr>mediaRecorder := Some \<lparr>state = Inactive, mimeType = mt, mr_stream = str,
                                       videoBitsPerSecond = bitrate_video (bitrate cfg),
                                       audioBitsPerSecond = bitrate_audio (bitrate cfg)\<rparr>,
              chunks := []\<rparr>, h), Returned)"
    using setupRecorder_first_supported by blast
next
  assume a: "select_stream cfg r = Inr (Some str)
        \<and> (\<forall>m\<in>set (butlast mimeTypes). \<not> isTypeSupported h m)
        \<and> isTypeSupported h (last mimeTypes)"
  then have "dropWhile (\<lambda>m. \<not> isTypeSupported h m) mimeTypes = [''video/webm'']"
    using only_last_supported by blast
  then have "setupRecorder cfg (r, h)
        = ((r\<lparr>mediaRecorder := Some \<lparr>state = Inactive, mimeType = ''video/webm'', mr_stream = str,
                                       videoBitsPerSecond = bitrate_video (bitrate cfg),
                                       audioBitsPerSecond = bitrate_audio (bitrate cfg)\<rparr>,
              chunks := []\<rparr>, h), Returned)"
    using a setupRecorder_first_supported by blast
  then show "map_option mimeType (mediaRecorder (fst (fst (setupRecorder cfg (r, h))))) = Some (last mimeTypes)"
    by (simp add: mimeTypes_def)
next
  assume "snd (setupStreams cfg s) = Returned
        \<and> select_stream cfg (fst (fst (setupStreams cfg s))) = Inr (Some str)
        \<and> dropWhile (\<lambda>m. \<not> isTypeSupported (snd s) m) mimeTypes = mt # rest"
  then show "start cfg s
        = (((fst (fst (setupStreams cfg s)))
              \<lparr>mediaRecorder := Some \<lparr>state = Recording, mimeType = mt, mr_stream = str,
                                       videoBitsPerSecond = bitrate_video (bitrate cfg),
                                       audioBitsPerSecond = bitrate_audio (bitrate cfg)\<rparr>,
               chunks := [], isRecording := True\<rparr>,
            snd (fst (setupStreams cfg s))), Returned)"
    using start_first_supported by blast
qed

text \<open>
  Screen mode on a host that grants the display stream: once supporting no type, once
  supporting only the last entry of the preference list.
\<close>

theorem codec_negotiation_and_rollback_witness:
  "select_mime (\<lambda>m. m = ''webm'') ([''vp9'', ''vp8''] @ [''webm'']) = Some ''webm''
   \<and> select_mime (isTypeSupported no_codec_host) mimeTypes = None
   \<and> snd (setupStreams screen_only (constructor :: unit Recorder, no_codec_host)) = Returned
   \<and> select_stream screen_only (fst (fst (setupStreams screen_only (constructor :: unit Recorder, no_codec_host))))
        = Inr (Some display_stream)
   \<and> snd (start screen_only (constructor :: unit Recorder, no_codec_host))
        = Threw (Error ''Failed to start recording: No supported video format found'')
   \<and> held_tracks (fst (fst (start screen_only (constructor :: unit Recorder, no_codec_host)))) = []
   \<and> track_id ` set display_stream
        \<subseteq> set (ended (snd (fst (start screen_only (constructor :: unit Recorder, no_codec_host)))))
   \<and> acquired_tracks screen_only no_codec_host = display_stream
   \<and> dropWhile (\<lambda>m. \<not> isTypeSupported webm_only_host m) mimeTypes = [''video/webm'']
   \<and> snd (start screen_only (constructor :: unit Recorder, webm_only_host)) = Returned
   \<and> mediaRecorder (fst (fst (start screen_only (constructor :: unit Recorder, webm_only_host))))
        = Some \<lparr>state = Recording, mimeType = ''video/webm'', mr_stream = display_stream,
                videoBitsPerSecond = 5000000, audioBitsPerSecond = 128000\<rparr>
   \<and> map_option mimeType (mediaRecorder (fst (fst (setupRecorder screen_only
          (constructor\<lparr>streams := null_streams\<lparr>screen := Some display_stream\<rparr>\<rparr> :: unit Recorder,
           webm_only_host))))) = Some ''video/webm''"
proof -
  let ?r1 = "constructor\<lparr>streams := null_streams\<lparr>screen := Some display_stream\<rparr>\<rparr> :: unit Recorder"
  have ss2: "setupStreams screen_only (constructor :: unit Recorder, webm_only_host)
      = ((?r1, webm_only_host), Returned)"
    by (simp add: setupStreams_def rethrow_def and_then_def acquire_screen_def acquire_webcam_def
          screen_only_def webm_only_host_def idle_host_def display_stream_def getVideoTracks_def
          constructor_def)
  have dw: "dropWhile (\<lambda>m. \<not> isTypeSupported webm_only_host m) mimeTypes = [''video/webm'']"
    by (simp add: webm_only_host_def mimeTypes_def)
  have bl: "(\<forall>m\<in>set (butlast mimeTypes). \<not> isTypeSupported webm_only_host m)
            \<and> isTypeSupported webm_only_host (last mimeTypes)"
    by (simp add: webm_only_host_def mimeTypes_def)
  have br: "bitrate_video (bitrate screen_only) = 5000000" "bitrate_audio (bitrate screen_only) = 128000"
    by (simp_all add: screen_only_def)
  have lm: "last mimeTypes = ''video/webm''" by (simp add: mimeTypes_def)
  have ss: "setupStreams screen_only (constructor :: unit Recorder, no_codec_host)
      = ((constructor\<lparr>streams := null_streams\<lparr>screen := Some display_stream\<rparr>\<rparr>, no_codec_host), Returned)"
    by (simp add: setupStreams_def rethrow_def and_then_def acquire_screen_def acquire_webcam_def
          screen_only_def no_codec_host_def idle_host_def display_stream_def getVideoTracks_def
          constructor_def)
  have sel: "select_stream screen_only (constructor\<lparr>streams := null_streams\<lparr>screen := Some display_stream\<rparr>\<rparr> :: unit Recorder)
      = Inr (Some display_stream)"
    by (simp add: select_stream_def screen_only_def)
  have ht: "held_tracks (constructor\<lparr>streams := null_streams\<lparr>screen := Some display_stream\<rparr>\<rparr> :: unit Recorder)
      = display_stream"
    by (simp add: held_tracks_def stream_values_def null_streams_def constructor_def)
  have aq: "acquired_tracks screen_only no_codec_host = display_stream"
    by (simp add: acquired_tracks_def screen_only_def no_codec_host_def idle_host_def Let_def
          display_stream_def getVideoTracks_def)
  have un: "\<forall>m\<in>set mimeTypes. \<not> isTypeSupported (snd (constructor :: unit Recorder, no_codec_host)) m"
    by (simp add: no_codec_host_def)
  note T1 = codec_negotiation_and_rollback[of "\<lambda>m. m = ''webm''" "[''vp9'', ''vp8''] @ [''webm'']"
        "[''vp9'', ''vp8'']" "''webm''" "(constructor :: unit Recorder, no_codec_host)"
        screen_only display_stream]
  have n1: "select_mime (\<lambda>m. m = ''webm'') ([''vp9'', ''vp8''] @ [''webm'']) = Some ''webm''"
    using T1[THEN conjunct2, THEN conjunct1] by simp
  note N = mp[OF T1[THEN conjunct2, THEN conjunct2, THEN conjunct1] un]
  have part1: "select_mime (isTypeSupported no_codec_host) mimeTypes = None
   \<and> snd (setupStreams screen_only (constructor :: unit Recorder, no_codec_host)) = Returned
   \<and> select_stream screen_only (fst (fst (setupStreams screen_only (constructor :: unit Recorder, no_codec_host))))
        = Inr (Some display_stream)
   \<and> snd (start screen_only (constructor :: unit Recorder, no_codec_host))
        = Threw (Error ''Failed to start recording: No supported video format found'')
   \<and> held_tracks (fst (fst (start screen_only (constructor :: unit Recorder, no_codec_host)))) = []
   \<and> track_id ` set display_stream
        \<subseteq> set (ended (snd (fst (start screen_only (constructor :: unit Recorder, no_codec_host)))))
   \<and> acquired_tracks screen_only no_codec_host = display_stream"
    using N un
    by (simp add: ss sel ht aq cleanup_torn_down cleanup_ended select_mime_None)
  note T2 = codec_negotiation_and_rollback[of "\<lambda>m. True" "[]" "[]" "[]"
        "(constructor :: unit Recorder, webm_only_host)"
        screen_only display_stream ?r1 webm_only_host "''video/webm''" "[]"]
  have p5: "select_stream screen_only ?r1 = Inr (Some display_stream)
        \<and> (\<forall>m\<in>set (butlast mimeTypes). \<not> isTypeSupported webm_only_host m)
        \<and> isTypeSupported webm_only_host (last mimeTypes)"
    using sel bl by simp
  have p6: "snd (setupStreams screen_only (constructor :: unit Recorder, webm_only_host)) = Returned
        \<and> select_stream screen_only (fst (fst (setupStreams screen_only (constructor :: unit Recorder, webm_only_host))))
            = Inr (Some display_stream)
        \<and> dropWhile (\<lambda>m. \<not> isTypeSupported (snd (constructor :: unit Recorder, webm_only_host)) m) mimeTypes
            = ''video/webm'' # []"
    using sel dw by (simp add: ss2)
  have sr2: "map_option mimeType (mediaRecorder (fst (fst (setupRecorder screen_only (?r1, webm_only_host)))))
      = Some ''video/webm''"
    using mp[OF T2[THEN conjunct2, THEN conjunct2, THEN conjunct2, THEN conjunct2, THEN conjunct1] p5]
    by (simp add: lm)
  have st2: "start screen_only (constructor :: unit Recorder, webm_only_host)
      = ((?r1\<lparr>mediaRecorder := Some \<lparr>state = Recording, mimeType = ''video/webm'',
                                         mr_stream = display_stream,
                                         videoBitsPerSecond = 5000000, audioBitsPerSecond = 128000\<rparr>,
               chunks := [], isRecording := True\<rparr>, webm_only_host), Returned)"
    using mp[OF T2[THEN conjunct2, THEN conjunct2, THEN conjunct2, THEN conjunct2, THEN conjunct2] p6]
    by (simp add: ss2 br)
  show ?thesis
    using n1 part1 dw st2 sr2 by simp
qed

text \<open>
  For comparison, combined mode on a host that grants both sources, supports every type
  and whose worker reports \<open>ready\<close>: \<open>start()\<close> returns with the encoder recording
  the generator's stream.
\<close>

lemma start_example:
  "snd (start combined_cfg (capable, granting_host)) = Returned
   \<and> combined (streams (fst (fst (start combined_cfg (capable, granting_host)))))
        = Some [\<lparr>track_id = 6, kind = Video\<rparr>]
   \<and> mediaRecorder (fst (fst (start combined_cfg (capable, granting_host))))
        = Some \<lparr>state = Recording, mimeType = ''video/webm;codecs=vp9,opus'',
                mr_stream = [\<lparr>track_id = 6, kind = Video\<rparr>],
                videoBitsPerSecond = 5000000, audioBitsPerSecond = 128000\<rparr>
   \<and> isRecording (fst (fst (start combined_cfg (capable, granting_host))))"
proof -
  have ss: "setupStreams combined_cfg (capable, granting_host)
       = ((capable\<lparr>streams := \<lparr>screen = Some display_stream, webcam = Some camera_stream,
                                combined = Some [\<lparr>track_id = 6, kind = Video\<rparr>]\<rparr>,
                   worker := Some 7\<rparr>, granting_host), Returned)"
    by (simp add: setupStreams_def rethrow_def and_then_def acquire_screen_def acquire_webcam_def
          createCombinedStream_def createCombinedStreamWebCodecs_def wc_init_def wc_step_def
          on_ready_def combineAudioWithVideoTrack_def selected_audio_def settle_def awaited_def
          combined_cfg_def capable_def granting_host_def idle_host_def constructor_def
          null_streams_def display_stream_def camera_stream_def getVideoTracks_def Let_def)
  let ?r1 = "capable\<lparr>streams := \<lparr>screen = Some display_stream, webcam = Some camera_stream,
                                combined = Some [\<lparr>track_id = 6, kind = Video\<rparr>]\<rparr>,
                   worker := Some 7\<rparr>"
  let ?m = "\<lparr>state = Inactive, mimeType = ''video/webm;codecs=vp9,opus'',
                mr_stream = [\<lparr>track_id = 6, kind = Video\<rparr>],
                videoBitsPerSecond = 5000000, audioBitsPerSecond = 128000\<rparr>"
  have sr: "setupRecorder combined_cfg (?r1, granting_host)
       = ((?r1\<lparr>mediaRecorder := Some ?m, chunks := []\<rparr>, granting_host), Returned)"
    by (simp add: setupRecorder_def select_stream_def mimeTypes_def combined_cfg_def
          granting_host_def idle_host_def)
  have rs: "recorder_start (?r1\<lparr>mediaRecorder := Some ?m, chunks := []\<rparr>, granting_host)
       = ((?r1\<lparr>mediaRecorder := Some (?m\<lparr>state := Recording\<rparr>), chunks := [],
                 isRecording := True\<rparr>, granting_host), Returned)"
    by (simp add: recorder_start_def mr_start_def)
  have "start combined_cfg (capable, granting_host)
       = ((?r1\<lparr>mediaRecorder := Some (?m\<lparr>state := Recording\<rparr>), chunks := [],
                 isRecording := True\<rparr>, granting_host), Returned)"
    by (simp only: start_def and_then_def ss sr rs prod.case outcome.case)
  then show ?thesis by simp
qed

subsection \<open>Combined mode: fallback from the worker to the canvas\<close>

lemma single_track_fallback_result:
  "single_track_fallback ts (r, h) = ((r', h'), out) \<Longrightarrow>
     h' = h \<and> worker r' = worker r \<and> canvas r' = canvas r \<and> canvasStream r' = canvasStream r
     \<and> (out = Returned \<longrightarrow> combined (streams r') \<noteq> None)
     \<and> (combined (streams r) \<noteq> None \<longrightarrow> combined (streams r') \<noteq> None)"
  by (auto simp: single_track_fallback_def split: option.splits)




lemma onError_no_worker:
  "worker (wc_rec st) = None \<Longrightarrow>
   \<exists>out. createCombinedStreamCanvas cfg (wc_rec st, wc_host st)
               = ((wc_rec (onError cfg st), wc_host (onError cfg st)), out)
             \<and> wc_promise (onError cfg st) = settle out (wc_promise st)"
  by (auto simp: onError_def fallbackToCanvas_def split: prod.splits)











subsection \<open>Inset geometry of the two compositors\<close>

text \<open>
  C7 as stated fails: on a 1280 by 720 canvas with a 1280 by 720 camera frame the
  software inset is 112.5 pixels high and the accelerated one 112.
\<close>

theorem inset_geometry_counterexample:
  "compose (width hd_video, height hd_video) cam720
     \<noteq> drawFrame both_sources hd_video (1920, 1080) (displayWidth cam720, displayHeight cam720)"
proof -
  have "\<lfloor>(225::rat) / 2\<rfloor> = 112" by (rule floor_unique) simp_all
  then show ?thesis
    by (simp add: compose_def drawFrame_def both_sources_def constructor_def hd_video_def
          cam720_def Let_def Math_floor_def)
qed

lemma floor_min_200: "min 200 (of_int \<lfloor>x :: rat\<rfloor>) = (of_int \<lfloor>min 200 x\<rfloor> :: rat)"
proof (cases "200 \<le> x")
  case True
  then have "200 \<le> \<lfloor>x\<rfloor>" by (simp add: le_floor_iff)
  then have "(200::rat) \<le> of_int \<lfloor>x\<rfloor>" by (metis of_int_le_iff of_int_numeral)
  then show ?thesis using True by (simp add: min_def)
next
  case False
  then have "\<lfloor>x\<rfloor> < 200" by (simp add: floor_less_iff)
  then have "(of_int \<lfloor>x\<rfloor> :: rat) < 200" by (metis of_int_less_iff of_int_numeral)
  then show ?thesis using False by (simp add: min_def)
qed

lemma spec_layout_inj:
  "spec_layout W H a b = spec_layout W H a' b' \<longleftrightarrow> a = a' \<and> b = b'"
  by (auto simp: spec_layout_def)

lemma of_int_floor_eq_iff: "(of_int \<lfloor>x :: rat\<rfloor> = x) \<longleftrightarrow> x \<in> \<int>"
  by (metis Ints_of_int of_int_floor)


text \<open>
  C7, amended. With both sources ready, each compositor draws the layout of the
  specification: the software one with inset width min(200, 0.2 W) and the height that
  keeps the camera's aspect ratio, the accelerated one with that width rounded down and
  the height computed from the rounded width and rounded down again. The two drawings
  are equal exactly when the software inset's width and height are whole numbers.
\<close>

theorem inset_geometry_rounded:
  assumes "screen (streams r) \<noteq> None \<or> webcam (streams r) \<noteq> None"
      and "0 < fst screenVideo" and "0 < snd screenVideo"
      and "0 < displayWidth cam" and "0 < displayHeight cam"
  shows "drawFrame r v screenVideo (displayWidth cam, displayHeight cam)
           = spec_layout (of_nat (width v)) (of_nat (height v))
               (spec_inset_width (width v))
               (scaled_height (spec_inset_width (width v)) cam)
       \<and> compose (width v, height v) cam
           = spec_layout (of_nat (width v)) (of_nat (height v))
               (Math_floor (spec_inset_width (width v)))
               (Math_floor (scaled_height (Math_floor (spec_inset_width (width v))) cam))
       \<and> (compose (width v, height v) cam = drawFrame r v screenVideo (displayWidth cam, displayHeight cam)
            \<longleftrightarrow> spec_inset_width (width v) \<in> \<int>
              \<and> scaled_height (spec_inset_width (width v)) cam \<in> \<int>)"
proof -
  let ?W = "of_nat (width v) :: rat" and ?H = "of_nat (height v) :: rat"
  let ?a = "spec_inset_width (width v)"
  have sw: "drawFrame r v screenVideo (displayWidth cam, displayHeight cam)
              = spec_layout ?W ?H ?a (scaled_height ?a cam)"
    using assms
    by (auto simp: drawFrame_def spec_layout_def spec_inset_width_def scaled_height_def Let_def)
  have fl: "min 200 (Math_floor (?W * (2 / 10))) = Math_floor ?a"
    unfolding Math_floor_def spec_inset_width_def by (rule floor_min_200)
  have acc: "compose (width v, height v) cam
               = spec_layout ?W ?H (Math_floor ?a) (Math_floor (scaled_height (Math_floor ?a) cam))"
    unfolding compose_def Let_def fst_conv snd_conv fl spec_layout_def scaled_height_def
    by simp
  have "(Math_floor ?a = ?a \<and> Math_floor (scaled_height (Math_floor ?a) cam) = scaled_height ?a cam)
          \<longleftrightarrow> (?a \<in> \<int> \<and> scaled_height ?a cam \<in> \<int>)"
  proof (cases "Math_floor ?a = ?a")
    case True
    then show ?thesis using of_int_floor_eq_iff[of ?a] of_int_floor_eq_iff[of "scaled_height ?a cam"]
      by (simp add: Math_floor_def)
  next
    case False
    then show ?thesis using of_int_floor_eq_iff[of ?a] by (simp add: Math_floor_def)
  qed
  then show ?thesis
    unfolding sw acc spec_layout_inj by simp
qed

theorem inset_geometry_rounded_witness:
  "screen (streams both_sources) = Some [] \<and> webcam (streams both_sources) = Some []
   \<and> 0 < fst (1920::nat, 1080::nat) \<and> 0 < snd (1920::nat, 1080::nat)
   \<and> 0 < displayWidth cam720 \<and> 0 < displayHeight cam720
   \<and> compose (width hd_video, height hd_video) cam720 = spec_layout 1280 720 200 112
   \<and> drawFrame both_sources hd_video (1920, 1080) (displayWidth cam720, displayHeight cam720)
       = spec_layout 1280 720 200 (225 / 2)"
proof -
  have f: "\<lfloor>(225::rat) / 2\<rfloor> = 112" by (rule floor_unique) simp_all
  show ?thesis
    using inset_geometry_rounded[of both_sources "(1920, 1080)" cam720 hd_video] f
    by (simp add: both_sources_def constructor_def cam720_def hd_video_def spec_inset_width_def
          scaled_height_def Math_floor_def)
qed

subsection \<open>Frames owned by the compose loop\<close>

lemma close_held_held: "close_held slot (held slot @ xs) = xs"
  by (simp add: close_held_def held_def split: option.splits)

lemma close_held_held0: "close_held slot (held slot) = []"
  using close_held_held[of slot "[]"] by simp

lemma length_held: "length (held slot) \<le> 1"
  by (simp add: held_def split: option.splits)

lemma length_delivered: "length (delivered res) \<le> 1"
  by (simp add: delivered_def split: read_result.splits)

lemma loop_inv_init: "loop_inv (worker_init cfg sr wr)"
  by (simp add: loop_inv_def worker_init_def held_def)

lemma loop_inv_stop: "loop_inv ws \<Longrightarrow> loop_inv (worker_stop ws)"
  by (simp add: loop_inv_def worker_stop_def split: loop_pc.splits)

lemma loop_inv_exit:
  "open_screen ws = held (screenFrame ws) @ xs \<Longrightarrow> open_webcam ws = held (webcamFrame ws) @ ys \<Longrightarrow>
   length xs \<le> 1 \<Longrightarrow> length ys \<le> 1 \<Longrightarrow> open_composed ws = [] \<Longrightarrow> loop_inv (loop_exit ws)"
  by (simp add: loop_inv_def loop_exit_def close_held_held)

lemma loop_inv_step: "loop_inv ws \<Longrightarrow> loop_inv (loop_step t ws)"
proof (cases "pc ws")
  case LoopHead
  assume inv: "loop_inv ws"
  then have o: "open_screen ws = held (screenFrame ws) @ []" "open_webcam ws = held (webcamFrame ws) @ []"
       "open_composed ws = []"
    using LoopHead by (simp_all add: loop_inv_def)
  show ?thesis
  proof (cases "isRunning ws")
    case False
    then have "loop_step t ws = loop_exit ws" using LoopHead by (simp add: loop_step_def)
    then show ?thesis using loop_inv_exit[OF o(1) o(2) _ _ o(3)] by simp
  next
    case True
    then show ?thesis using LoopHead inv by (simp add: loop_step_def loop_inv_def)
  qed
next
  case AwaitReads
  assume "loop_inv ws"
  then show ?thesis using AwaitReads by (simp add: loop_step_def loop_inv_def Let_def)
next
  case (GotReads s w)
  assume inv: "loop_inv ws"
  then have o: "open_screen ws = held (screenFrame ws) @ delivered s"
       "open_webcam ws = held (webcamFrame ws) @ delivered w" "open_composed ws = []"
    using GotReads by (simp_all add: loop_inv_def)
  show ?thesis
  proof (cases "\<exists>a b. s = ReadValue a \<and> w = ReadValue b")
    case True
    then obtain a b where sw: "s = ReadValue a" "w = ReadValue b" by blast
    have cs: "close_held (screenFrame ws) (open_screen ws) = [a]"
         "close_held (webcamFrame ws) (open_webcam ws) = [b]"
      using o sw by (simp_all add: close_held_held delivered_def)
    show ?thesis using GotReads o(3) sw cs
      by (simp add: loop_step_def Let_def loop_inv_def held_def)
  next
    case False
    then have "loop_step t ws = loop_exit ws" using GotReads
      by (auto simp: loop_step_def split: read_result.splits)
    then show ?thesis
      using loop_inv_exit[OF o(1) o(2) length_delivered length_delivered o(3)] by simp
  qed
next
  case (AwaitWrite c)
  assume "loop_inv ws"
  then show ?thesis
    using AwaitWrite length_held[of "screenFrame ws"] length_held[of "webcamFrame ws"]
    by (simp add: loop_step_def loop_inv_def)
next
  case Exited
  assume "loop_inv ws"
  then show ?thesis using Exited by (simp add: loop_step_def)
next
  case Failed
  assume "loop_inv ws"
  then show ?thesis using Failed by (simp add: loop_step_def)
qed

lemma loop_inv_worker_step: "loop_inv ws \<Longrightarrow> loop_inv (worker_step t ws)"
  by (simp add: worker_step_def loop_inv_step loop_inv_stop)

lemma loop_inv_run: "loop_inv ws \<Longrightarrow> loop_inv (worker_run ts ws)"
  unfolding worker_run_def
  by (induction ts arbitrary: ws) (simp_all add: loop_inv_worker_step)

lemma loop_inv_bounds:
  assumes "loop_inv ws"
  shows "length (open_screen ws) \<le> (case pc ws of GotReads s w \<Rightarrow> 2 | _ \<Rightarrow> 1)"
    and "length (open_webcam ws) \<le> (case pc ws of GotReads s w \<Rightarrow> 2 | _ \<Rightarrow> 1)"
    and "length (open_composed ws) \<le> (case pc ws of AwaitWrite c \<Rightarrow> 1 | Failed \<Rightarrow> 1 | _ \<Rightarrow> 0)"
proof -
  have h: "length (held (screenFrame ws)) \<le> 1" "length (held (webcamFrame ws)) \<le> 1"
    by (rule length_held)+
  show "length (open_screen ws) \<le> (case pc ws of GotReads s w \<Rightarrow> 2 | _ \<Rightarrow> 1)"
  proof (cases "pc ws")
    case (GotReads s w)
    then show ?thesis using assms h(1) length_delivered[of s] by (simp add: loop_inv_def)
  qed (use assms h(1) in \<open>simp_all add: loop_inv_def\<close>)
  show "length (open_webcam ws) \<le> (case pc ws of GotReads s w \<Rightarrow> 2 | _ \<Rightarrow> 1)"
  proof (cases "pc ws")
    case (GotReads s w)
    then show ?thesis using assms h(2) length_delivered[of w] by (simp add: loop_inv_def)
  qed (use assms h(2) in \<open>simp_all add: loop_inv_def\<close>)
  show "length (open_composed ws) \<le> (case pc ws of AwaitWrite c \<Rightarrow> 1 | Failed \<Rightarrow> 1 | _ \<Rightarrow> 0)"
    using assms by (cases "pc ws") (auto simp: loop_inv_def)
qed

text \<open>
  C8, amended. Wherever the loop is suspended, it owns at most two frames per input,
  and two only right after a read has delivered the next frame while the previous one is
  still held; at every other point it owns at most one per input. A composed frame is
  owned only while its write is pending, or after the loop has failed.
\<close>

theorem compose_loop_frames_bounded:
  "length (open_screen (worker_run ts (worker_init cfg sr wr)))
     \<le> (case pc (worker_run ts (worker_init cfg sr wr)) of GotReads s w \<Rightarrow> 2 | _ \<Rightarrow> 1)
   \<and> length (open_webcam (worker_run ts (worker_init cfg sr wr)))
     \<le> (case pc (worker_run ts (worker_init cfg sr wr)) of GotReads s w \<Rightarrow> 2 | _ \<Rightarrow> 1)
   \<and> length (open_composed (worker_run ts (worker_init cfg sr wr)))
     \<le> (case pc (worker_run ts (worker_init cfg sr wr)) of AwaitWrite c \<Rightarrow> 1 | Failed \<Rightarrow> 1 | _ \<Rightarrow> 0)"
  using loop_inv_bounds[OF loop_inv_run[OF loop_inv_init]] by blast

text \<open>
  C8 as stated fails: when the second read has delivered, the first screen frame has
  not been closed yet, so two screen frames are open.
\<close>

theorem two_screen_frames_live:
  "\<not> length (open_screen (worker_run six_ticks
         (worker_init hd_video [frame_no 1, frame_no 2] [frame_no 3, frame_no 4]))) \<le> 1"
  by (simp add: six_ticks_def worker_run_def worker_step_def at_ms_def worker_init_def hd_video_def loop_step_def targetFrameTime_def Let_def read_next_def delivered_def close_held_def frame_no_def composed_frame_def)

end
